theory Spec2Isabelle
  imports Complex_Main "HOL-Library.Char_ord" "HOL-Library.List_Lexorder" "HOL-Library.Log_Nat"
    "HOL-Library.Sublist"
begin

section \<open>Strings\<close>

text \<open>
  A Python \<open>str\<close> is modelled by its UTF-8 encoding, a \<open>string\<close>. The decorative
  symbols of the messages are written as their bytes.
\<close>

definition check_mark :: string where
  "check_mark = [CHR 0xE2, CHR 0x9C, CHR 0x93]"

text \<open>
  Slices and widths count code points; in UTF-8 a code point starts at every byte that
  is not a continuation byte (\<open>10xxxxxx\<close>).
\<close>

definition is_continuation :: "char \<Rightarrow> bool" where
  "is_continuation ch = ((of_char ch :: nat) div 64 = 2)"

fun py_take :: "nat \<Rightarrow> string \<Rightarrow> string" where
  "py_take n [] = []"
| "py_take n (ch # s) =
     (if is_continuation ch then ch # py_take n s
      else (case n of 0 \<Rightarrow> [] | Suc k \<Rightarrow> ch # py_take k s))"


section \<open>The runtime: decimal text, dates and times\<close>

text \<open>
  What the code takes from Python's library is modelled here: decimal formatting, and
  the \<open>datetime\<close> type with \<open>isoformat\<close>, the comparison and the addition of a number
  of days (\<open>timedelta(days=n)\<close>, \<open>timedelta(weeks=n)\<close>).
\<close>

datatype error = ValueError | OverflowError | TypeError

definition digit_char :: "nat \<Rightarrow> char" where
  "digit_char d = char_of (48 + d)"

fun str_nat :: "nat \<Rightarrow> string" where
  "str_nat n = (if n < 10 then [digit_char n] else str_nat (n div 10) @ [digit_char (n mod 10)])"

declare str_nat.simps [simp del]

definition str_int :: "int \<Rightarrow> string" where
  "str_int i = (if i < 0 then CHR ''-'' # str_nat (nat (- i)) else str_nat (nat i))"

text \<open>\<open>zfill w n\<close> is the format \<open>%0wd\<close>: at least \<open>w\<close> digits, padded with zeros.\<close>

definition zfill :: "nat \<Rightarrow> nat \<Rightarrow> string" where
  "zfill w n = replicate (w - length (str_nat n)) CHR ''0'' @ str_nat n"

text \<open>
  A \<open>datetime\<close> is naive (\<open>utcoffset = None\<close>) or carries a fixed offset from UTC, in
  microseconds.
\<close>

record datetime =
  year :: nat
  month :: nat
  day :: nat
  hour :: nat
  minute :: nat
  second :: nat
  microsecond :: nat
  utcoffset :: "int option"

definition is_leap :: "nat \<Rightarrow> bool" where
  "is_leap y = (y mod 4 = 0 \<and> (y mod 100 \<noteq> 0 \<or> y mod 400 = 0))"

definition days_in_month :: "nat \<Rightarrow> nat \<Rightarrow> nat" where
  "days_in_month y m =
     (if m = 2 then (if is_leap y then 29 else 28)
      else if m = 4 \<or> m = 6 \<or> m = 9 \<or> m = 11 then 30 else 31)"

definition days_before_year :: "nat \<Rightarrow> nat" where
  "days_before_year y = (y - 1) * 365 + (y - 1) div 4 + (y - 1) div 400 - (y - 1) div 100"

definition days_before_month_tab :: "nat list" where
  "days_before_month_tab = [0, 0, 31, 59, 90, 120, 151, 181, 212, 243, 273, 304, 334]"

definition days_before_month :: "nat \<Rightarrow> nat \<Rightarrow> nat" where
  "days_before_month y m =
     days_before_month_tab ! m + (if 2 < m \<and> is_leap y then 1 else 0)"

definition ymd2ord :: "nat \<Rightarrow> nat \<Rightarrow> nat \<Rightarrow> nat" where
  "ymd2ord y m d = days_before_year y + days_before_month y m + d"

definition valid_datetime :: "datetime \<Rightarrow> bool" where
  "valid_datetime d =
     (1 \<le> year d \<and> year d \<le> 9999 \<and> 1 \<le> month d \<and> month d \<le> 12 \<and>
      1 \<le> day d \<and> day d \<le> days_in_month (year d) (month d) \<and>
      hour d < 24 \<and> minute d < 60 \<and> second d < 60 \<and> microsecond d < 1000000)"

text \<open>The inverse of \<open>ymd2ord\<close>, by the 400, 100, 4 and 1 year cycles as the library does.\<close>

definition ord2ymd :: "nat \<Rightarrow> nat \<times> nat \<times> nat" where
  "ord2ymd n0 =
     (let n = n0 - 1;
          n400 = n div 146097; n = n mod 146097;
          n100 = n div 36524; n = n mod 36524;
          n4 = n div 1461; n = n mod 1461;
          n1 = n div 365; n = n mod 365;
          y = n400 * 400 + 1 + n100 * 100 + n4 * 4 + n1
      in if n1 = 4 \<or> n100 = 4 then (y - 1, 12, 31)
         else
           (let leapyear = (n1 = 3 \<and> (n4 \<noteq> 24 \<or> n100 = 3));
                m = (n + 50) div 32;
                preceding = days_before_month_tab ! m + (if 2 < m \<and> leapyear then 1 else 0)
            in if n < preceding
               then (let m' = m - 1;
                         preceding' = preceding -
                           (days_in_month 1 m' + (if m' = 2 \<and> leapyear then 1 else 0))
                     in (y, m', n - preceding' + 1))
               else (y, m, n - preceding + 1)))"

definition max_ordinal :: nat where
  "max_ordinal = 3652059"

text \<open>
  \<open>d + timedelta(days=n)\<close>: the date moves by \<open>n\<close> days and the time of day stays; a
  result before year 1 or after year 9999 raises \<open>OverflowError\<close>.
\<close>

definition toordinal :: "datetime \<Rightarrow> nat" where
  "toordinal d = ymd2ord (year d) (month d) (day d)"

definition with_ordinal :: "datetime \<Rightarrow> nat \<Rightarrow> datetime" where
  "with_ordinal d n = (case ord2ymd n of (y, m, dd) \<Rightarrow> d\<lparr>year := y, month := m, day := dd\<rparr>)"

definition add_days :: "datetime \<Rightarrow> int \<Rightarrow> error + datetime" where
  "add_days d n =
     (let ord = int (toordinal d) + n
      in if 0 < ord \<and> ord \<le> int max_ordinal then Inr (with_ordinal d (nat ord))
         else Inl OverflowError)"

definition format_offset :: "int \<Rightarrow> string" where
  "format_offset off =
     (let a = nat \<bar>off\<bar>;
          h = a div 3600000000; m = a div 60000000 mod 60;
          s = a div 1000000 mod 60; us = a mod 1000000
      in (if off < 0 then ''-'' else ''+'') @ zfill 2 h @ '':'' @ zfill 2 m @
         (if s \<noteq> 0 \<or> us \<noteq> 0 then '':'' @ zfill 2 s else []) @
         (if us \<noteq> 0 then ''.'' @ zfill 6 us else []))"

definition isoformat :: "datetime \<Rightarrow> string" where
  "isoformat d =
     zfill 4 (year d) @ ''-'' @ zfill 2 (month d) @ ''-'' @ zfill 2 (day d) @ ''T'' @
     zfill 2 (hour d) @ '':'' @ zfill 2 (minute d) @ '':'' @ zfill 2 (second d) @
     (if microsecond d \<noteq> 0 then ''.'' @ zfill 6 (microsecond d) else []) @
     (case utcoffset d of None \<Rightarrow> [] | Some off \<Rightarrow> format_offset off)"




text \<open>
  The parts of the runtime that differ from process to process are a parameter:
  \<open>fromisoformat\<close>, whose accepted grammar depends on the Python version (\<open>None\<close> is
  \<open>ValueError\<close>), and \<open>hash\<close> on strings, which is salted per process.
\<close>

record runtime =
  fromisoformat :: "string \<Rightarrow> datetime option"
  hash :: "string \<Rightarrow> int"

section \<open>calendar_manager.py: events and the calendar\<close>

text \<open>
  \<open>CampaignEvent\<close> is a dataclass; \<open>performance_metrics\<close> is a dict, kept as an
  association list in insertion order. The constructor takes every field, with
  \<open>status\<close> defaulting to \<open>Scheduled\<close> and \<open>performance_metrics\<close> to the empty dict.
\<close>

record CampaignEvent =
  campaign_id :: string
  platform :: string
  title :: string
  content :: string
  scheduled_time :: string
  status :: string
  performance_metrics :: "(string \<times> int) list"

definition new_event :: "string \<Rightarrow> string \<Rightarrow> string \<Rightarrow> string \<Rightarrow> string \<Rightarrow> CampaignEvent" where
  "new_event cid p t c st =
     \<lparr>campaign_id = cid, platform = p, title = t, content = c, scheduled_time = st,
      status = ''Scheduled'', performance_metrics = []\<rparr>"

text \<open>
  Event objects are shared between the calendar's list and the caller, and
  \<open>execute_event\<close> mutates them in place. The objects live in a store (\<open>heap\<close>, the
  address of an object is its index), and \<open>events\<close> holds addresses. \<open>stdout\<close> collects
  the printed lines.
\<close>

type_synonym ref = nat

record calendar =
  heap :: "CampaignEvent list"
  events :: "ref list"
  stdout :: "string list"

definition empty_calendar :: calendar where
  "empty_calendar = \<lparr>heap = [], events = [], stdout = []\<rparr>"

definition alloc :: "calendar \<Rightarrow> CampaignEvent \<Rightarrow> calendar \<times> ref" where
  "alloc c e = (c\<lparr>heap := heap c @ [e]\<rparr>, length (heap c))"

definition added_line :: "CampaignEvent \<Rightarrow> string" where
  "added_line e =
     check_mark @ '' Added '' @ platform e @ '' campaign: '' @ title e @ '' on '' @
     scheduled_time e"

text \<open>
  A reference always denotes an allocated object; the guard only makes the functions
  total.
\<close>

definition add_event :: "calendar \<Rightarrow> ref \<Rightarrow> calendar" where
  "add_event c r =
     (if r < length (heap c) then
        c\<lparr>events := events c @ [r], stdout := stdout c @ [added_line (heap c ! r)]\<rparr>
      else c)"

text \<open>
  \<open>schedule_campaign_across_platforms\<close>. The inner loop, over \<open>range(7)\<close> or
  \<open>range(4)\<close>, is \<open>schedule_loop\<close>; the loop over the platforms is
  \<open>schedule_platforms\<close>. An exception leaves the events added so far in the calendar.
\<close>

definition content_for :: "(string \<rightharpoonup> string) \<Rightarrow> string \<Rightarrow> string" where
  "content_for cmap p = (case cmap p of None \<Rightarrow> [] | Some s \<Rightarrow> s)"

definition daily_event ::
  "string \<Rightarrow> string \<Rightarrow> string \<Rightarrow> string \<Rightarrow> datetime \<Rightarrow> nat \<Rightarrow> error + CampaignEvent" where
  "daily_event cid t p c start i =
     (case add_days start (int i) of
        Inl e \<Rightarrow> Inl e
      | Inr d \<Rightarrow> Inr (new_event (cid @ ''_day'' @ str_nat (i + 1)) p
                  (t @ '' - Day '' @ str_nat (i + 1)) c (isoformat d)))"

definition weekly_event ::
  "string \<Rightarrow> string \<Rightarrow> string \<Rightarrow> string \<Rightarrow> datetime \<Rightarrow> nat \<Rightarrow> error + CampaignEvent" where
  "weekly_event cid t p c start i =
     (case add_days start (7 * int i) of
        Inl e \<Rightarrow> Inl e
      | Inr d \<Rightarrow> Inr (new_event (cid @ ''_week'' @ str_nat (i + 1)) p
                  (t @ '' - Week '' @ str_nat (i + 1)) c (isoformat d)))"

fun schedule_loop ::
  "calendar \<Rightarrow> (nat \<Rightarrow> error + CampaignEvent) \<Rightarrow> nat list \<Rightarrow> ref list
     \<Rightarrow> calendar \<times> ref list \<times> error option" where
  "schedule_loop c mk [] acc = (c, acc, None)"
| "schedule_loop c mk (i # is) acc =
     (case mk i of
        Inl e \<Rightarrow> (c, acc, Some e)
      | Inr ev \<Rightarrow> schedule_loop (add_event (fst (alloc c ev)) (snd (alloc c ev))) mk is
                  (acc @ [snd (alloc c ev)]))"

fun schedule_platforms ::
  "calendar \<Rightarrow> string \<Rightarrow> string \<Rightarrow> (string \<rightharpoonup> string) \<Rightarrow> datetime \<Rightarrow> string
     \<Rightarrow> string list \<Rightarrow> ref list \<Rightarrow> calendar \<times> (error + ref list)" where
  "schedule_platforms c cid t cmap start freq [] acc = (c, Inr acc)"
| "schedule_platforms c cid t cmap start freq (p # ps) acc =
     (let content = content_for cmap p in
      if freq = ''once'' then
        (case schedule_loop c (\<lambda>i. Inr (new_event cid p t content (isoformat start))) [0] acc of
           (c', acc', _) \<Rightarrow> schedule_platforms c' cid t cmap start freq ps acc')
      else if freq = ''daily'' then
        (case schedule_loop c (daily_event cid t p content start) [0..<7] acc of
           (c', acc', Some e) \<Rightarrow> (c', Inl e)
         | (c', acc', None) \<Rightarrow> schedule_platforms c' cid t cmap start freq ps acc')
      else if freq = ''weekly'' then
        (case schedule_loop c (weekly_event cid t p content start) [0..<4] acc of
           (c', acc', Some e) \<Rightarrow> (c', Inl e)
         | (c', acc', None) \<Rightarrow> schedule_platforms c' cid t cmap start freq ps acc')
      else schedule_platforms c cid t cmap start freq ps acc)"

definition schedule_campaign_across_platforms ::
  "runtime \<Rightarrow> calendar \<Rightarrow> string \<Rightarrow> string \<Rightarrow> string list \<Rightarrow> (string \<rightharpoonup> string)
     \<Rightarrow> string \<Rightarrow> string \<Rightarrow> calendar \<times> (error + ref list)" where
  "schedule_campaign_across_platforms rt c cid t platforms cmap start_date freq =
     (case fromisoformat rt start_date of
        None \<Rightarrow> (c, Inl ValueError)
      | Some start \<Rightarrow> schedule_platforms c cid t cmap start freq platforms [])"

text \<open>
  \<open>%\<close> with a positive right operand is \<open>mod\<close> on \<open>int\<close>: the result is never
  negative, whatever the sign of the hash.
\<close>

definition execute_metrics :: "runtime \<Rightarrow> string \<Rightarrow> (string \<times> int) list" where
  "execute_metrics rt cid =
     [(''reach'', 5000 + hash rt cid mod 10000),
      (''engagement'', 250 + hash rt cid mod 1000),
      (''clicks'', 50 + hash rt cid mod 500),
      (''conversions'', 5 + hash rt cid mod 50)]"

definition execute_event :: "runtime \<Rightarrow> calendar \<Rightarrow> ref \<Rightarrow> calendar" where
  "execute_event rt c r =
     (if r < length (heap c) then
        (let e = heap c ! r;
             e' = e\<lparr>status := ''Executed'',
                    performance_metrics := execute_metrics rt (campaign_id e)\<rparr>
         in c\<lparr>heap := (heap c)[r := e'],
              stdout := stdout c @
                [check_mark @ '' Executed '' @ platform e' @ '' campaign: '' @ title e']\<rparr>)
      else c)"

text \<open>
  The events that the specification lists for one platform: one at the start for
  \<open>once\<close>, seven on consecutive days for \<open>daily\<close>, four on consecutive weeks for
  \<open>weekly\<close>. \<open>horizon\<close> is the number of days between the first and the last of them.
\<close>

definition occurrences ::
  "string \<Rightarrow> string \<Rightarrow> string \<Rightarrow> string \<Rightarrow> string \<Rightarrow> datetime \<Rightarrow> CampaignEvent list" where
  "occurrences freq cid t p c start =
     (if freq = ''once'' then [new_event cid p t c (isoformat start)]
      else if freq = ''daily'' then
        map (\<lambda>i. new_event (cid @ ''_day'' @ str_nat (i + 1)) p
                 (t @ '' - Day '' @ str_nat (i + 1)) c
                 (isoformat (with_ordinal start (toordinal start + i)))) [0..<7]
      else if freq = ''weekly'' then
        map (\<lambda>i. new_event (cid @ ''_week'' @ str_nat (i + 1)) p
                 (t @ '' - Week '' @ str_nat (i + 1)) c
                 (isoformat (with_ordinal start (toordinal start + 7 * i)))) [0..<4]
      else [])"

definition horizon :: "string \<Rightarrow> nat" where
  "horizon freq = (if freq = ''daily'' then 6 else if freq = ''weekly'' then 21 else 0)"

definition per_platform :: "string \<Rightarrow> nat" where
  "per_platform freq =
     (if freq = ''once'' then 1 else if freq = ''daily'' then 7
      else if freq = ''weekly'' then 4 else 0)"

text \<open>The calendar after the events \<open>es\<close> were created and added, in this order.\<close>

definition appended :: "calendar \<Rightarrow> CampaignEvent list \<Rightarrow> calendar" where
  "appended c es =
     c\<lparr>heap := heap c @ es,
       events := events c @ [length (heap c)..<length (heap c) + length es],
       stdout := stdout c @ map added_line es\<rparr>"





definition newline :: string where
  "newline = [CHR 0x0A]"


definition date_text :: "datetime \<Rightarrow> string" where
  "date_text d = zfill 4 (year d) @ ''-'' @ zfill 2 (month d) @ ''-'' @ zfill 2 (day d)"




definition calendar_mark :: string where
  "calendar_mark = [CHR 0xF0, CHR 0x9F, CHR 0x93, CHR 0x85]"



text \<open>
  \<open>export_calendar\<close> writes one JSON document; the result is the calendar after the
  call and the file written, as its name and the document. \<open>asdict\<close> lists the fields
  of the dataclass in their order.
\<close>

datatype json = JString string | JInt int | JArray "json list" | JObject "(string \<times> json) list"

fun json_get :: "json \<Rightarrow> string \<Rightarrow> json option" where
  "json_get (JObject kvs) k = map_of kvs k"
| "json_get _ k = None"

definition asdict :: "CampaignEvent \<Rightarrow> json" where
  "asdict e =
     JObject [(''campaign_id'', JString (campaign_id e)), (''platform'', JString (platform e)),
       (''title'', JString (title e)), (''content'', JString (content e)),
       (''scheduled_time'', JString (scheduled_time e)), (''status'', JString (status e)),
       (''performance_metrics'', JObject (map (\<lambda>(k, v). (k, JInt v)) (performance_metrics e)))]"

definition export_calendar :: "datetime \<Rightarrow> calendar \<Rightarrow> string \<Rightarrow> calendar \<times> string \<times> json" where
  "export_calendar now c filename =
     (let data = JObject [(''exported_at'', JString (isoformat now)),
                          (''total_campaigns'', JInt (int (length (events c)))),
                          (''events'', JArray (map (\<lambda>r. asdict (heap c ! r)) (events c)))]
      in (c\<lparr>stdout := stdout c @ [check_mark @ '' Calendar exported to '' @ filename]\<rparr>,
          filename, data))"

section \<open>Clients of the calendar\<close>

text \<open>
  A client builds events with the dataclass constructor, which takes any status and any
  metrics, and calls \<open>add_event\<close>, \<open>schedule_campaign_across_platforms\<close> and
  \<open>execute_event\<close> in any order. An exception of a call is caught by the client: the
  run goes on in the state the call left.
\<close>

datatype call =
    Construct CampaignEvent
  | Add_event ref
  | Schedule string string "string list" "(string \<times> string) list" string string
  | Execute_event ref

fun step :: "runtime \<Rightarrow> calendar \<Rightarrow> call \<Rightarrow> calendar" where
  "step rt c (Construct e) = fst (alloc c e)"
| "step rt c (Add_event r) = add_event c r"
| "step rt c (Schedule cid t ps cm sd f) =
     fst (schedule_campaign_across_platforms rt c cid t ps (map_of cm) sd f)"
| "step rt c (Execute_event r) = execute_event rt c r"

fun run :: "runtime \<Rightarrow> calendar \<Rightarrow> call list \<Rightarrow> calendar" where
  "run rt c [] = c"
| "run rt c (x # xs) = run rt (step rt c x) xs"

definition metrics_iff_executed :: "CampaignEvent \<Rightarrow> bool" where
  "metrics_iff_executed e = (performance_metrics e \<noteq> [] \<longleftrightarrow> status e = ''Executed'')"

fun constructs_consistent :: "call \<Rightarrow> bool" where
  "constructs_consistent (Construct e) = metrics_iff_executed e"
| "constructs_consistent _ = True"

definition calendar_inv :: "calendar \<Rightarrow> bool" where
  "calendar_inv c =
     (list_all metrics_iff_executed (heap c) \<and> list_all (\<lambda>r. r < length (heap c)) (events c))"

section \<open>A concrete runtime\<close>

text \<open>
  For evaluation on concrete inputs: a parser for the layouts \<open>YYYY-MM-DD\<close>,
  \<open>YYYY-MM-DD*HH:MM:SS\<close> and \<open>YYYY-MM-DD*HH:MM:SS+HH:MM\<close> (or \<open>-HH:MM\<close>), where \<open>*\<close>
  is any one ASCII character. Every CPython from 3.7 on accepts these strings with this
  result: a date alone is midnight, a string without offset is naive, and the offset
  has hours below 24 and minutes below 60. The parser rejects every other string.
  CPython accepts further layouts (fractions of a second, a time without seconds, and
  from 3.11 on most of ISO 8601), so this runtime stands for CPython only at strings in
  the three layouts and at strings that no CPython accepts.
\<close>

definition digit_of :: "char \<Rightarrow> nat option" where
  "digit_of ch =
     (if (48::nat) \<le> of_char ch \<and> of_char ch \<le> (57::nat) then Some (of_char ch - 48) else None)"

fun digits_acc :: "nat \<Rightarrow> string \<Rightarrow> nat option" where
  "digits_acc a [] = Some a"
| "digits_acc a (ch # s) =
     (case digit_of ch of None \<Rightarrow> None | Some d \<Rightarrow> digits_acc (10 * a + d) s)"

definition parse_digits :: "string \<Rightarrow> nat option" where
  "parse_digits s = (if s = [] then None else digits_acc 0 s)"

definition parse_date :: "string \<Rightarrow> (nat \<times> nat \<times> nat) option" where
  "parse_date s =
     (if length s = 10 \<and> s ! 4 = CHR ''-'' \<and> s ! 7 = CHR ''-'' then
        (case (parse_digits (take 4 s), parse_digits (take 2 (drop 5 s)),
               parse_digits (take 2 (drop 8 s))) of
           (Some y, Some m, Some d) \<Rightarrow> Some (y, m, d)
         | _ \<Rightarrow> None)
      else None)"

definition parse_time :: "string \<Rightarrow> (nat \<times> nat \<times> nat) option" where
  "parse_time s =
     (if length s = 8 \<and> s ! 2 = CHR '':'' \<and> s ! 5 = CHR '':'' then
        (case (parse_digits (take 2 s), parse_digits (take 2 (drop 3 s)),
               parse_digits (take 2 (drop 6 s))) of
           (Some h, Some mi, Some sec) \<Rightarrow> Some (h, mi, sec)
         | _ \<Rightarrow> None)
      else None)"

text \<open>The offset \<open>+HH:MM\<close> or \<open>-HH:MM\<close>, in microseconds.\<close>

definition parse_offset :: "string \<Rightarrow> int option" where
  "parse_offset s =
     (if length s = 6 \<and> (s ! 0 = CHR ''+'' \<or> s ! 0 = CHR ''-'') \<and> s ! 3 = CHR '':'' then
        (case (parse_digits (take 2 (drop 1 s)), parse_digits (take 2 (drop 4 s))) of
           (Some h, Some m) \<Rightarrow>
             (if h < 24 \<and> m < 60
              then Some ((if s ! 0 = CHR ''-'' then - 1 else 1) * int (h * 60 + m) * 60000000)
              else None)
         | _ \<Rightarrow> None)
      else None)"

definition make_datetime ::
  "nat \<times> nat \<times> nat \<Rightarrow> nat \<times> nat \<times> nat \<Rightarrow> int option \<Rightarrow> datetime option" where
  "make_datetime ymd hms off =
     (case (ymd, hms) of
        ((y, m, d), (h, mi, sec)) \<Rightarrow>
          (let dt = \<lparr>year = y, month = m, day = d, hour = h, minute = mi, second = sec,
                       microsecond = 0, utcoffset = off\<rparr>
           in if valid_datetime dt then Some dt else None))"

definition fromisoformat_basic :: "string \<Rightarrow> datetime option" where
  "fromisoformat_basic s =
     (case parse_date (take 10 s) of
        None \<Rightarrow> None
      | Some ymd \<Rightarrow>
          (if length s = 10 then make_datetime ymd (0, 0, 0) None
           else if (of_char (s ! 10) :: nat) < 128 then
             (case parse_time (take 8 (drop 11 s)) of
                None \<Rightarrow> None
              | Some hms \<Rightarrow>
                  (if length s = 19 then make_datetime ymd hms None
                   else (case parse_offset (drop 19 s) of
                           None \<Rightarrow> None
                         | Some off \<Rightarrow> make_datetime ymd hms (Some off))))
           else None))"

definition sample_hash :: "string \<Rightarrow> int" where
  "sample_hash s = 31 * int (length s) - 1000"

definition cpython_basic :: runtime where
  "cpython_basic = \<lparr>fromisoformat = fromisoformat_basic, hash = sample_hash\<rparr>"

definition jan_1_2024_9am :: datetime where
  "jan_1_2024_9am =
     \<lparr>year = 2024, month = 1, day = 1, hour = 9, minute = 0, second = 0, microsecond = 0,
      utcoffset = None\<rparr>"

section \<open>The runtime: floating point\<close>

text \<open>
  A Python \<open>float\<close> is a binary64 number. It is modelled by a mantissa and a binary
  exponent, \<open>(m, e)\<close> standing for \<open>m * 2 ^ e\<close>; the mantissa of a result has at most
  53 bits. Every operation computes the exact result and rounds it to the nearest such
  number, ties to the even mantissa (\<open>fround\<close>). The exponent is not bounded: no value of
  this program comes near the largest or the smallest binary64 number.
\<close>

type_synonym double = "int \<times> int"

definition fvalue :: "double \<Rightarrow> rat" where
  "fvalue d =
     (if 0 \<le> snd d then of_int (fst d) * 2 ^ nat (snd d)
      else of_int (fst d) / 2 ^ nat (- snd d))"

definition fround :: "int \<Rightarrow> int \<Rightarrow> double" where
  "fround m e =
     (if bitlen \<bar>m\<bar> \<le> 53 then (m, e)
      else
        (let k = nat (bitlen \<bar>m\<bar> - 53);
             q = \<bar>m\<bar> div 2 ^ k;
             r = \<bar>m\<bar> mod 2 ^ k;
             h = 2 ^ (k - 1);
             q' = (if r < h \<or> (r = h \<and> even q) then q else q + 1)
         in (sgn m * q', e + int k)))"

definition fmul :: "double \<Rightarrow> double \<Rightarrow> double" where
  "fmul a b = fround (fst a * fst b) (snd a + snd b)"

definition fadd :: "double \<Rightarrow> double \<Rightarrow> double" where
  "fadd a b =
     (let e = min (snd a) (snd b)
      in fround (fst a * 2 ^ nat (snd a - e) + fst b * 2 ^ nat (snd b - e)) e)"

definition float_of_int :: "int \<Rightarrow> double" where
  "float_of_int n = fround n 0"

text \<open>
  \<open>nearest p q\<close> is the correctly rounded quotient \<open>p / q\<close> for \<open>q > 0\<close>: the true
  division of two ints, and the value of a decimal literal (\<open>0.7\<close> is \<open>nearest 7 10\<close>).
  The quotient is computed to at least 55 bits, with one more bit that records a
  non-zero remainder.
\<close>

definition nearest :: "int \<Rightarrow> int \<Rightarrow> double" where
  "nearest p q =
     (if p = 0 then (0, 0)
      else
        (let s = 55 - (bitlen \<bar>p\<bar> - bitlen q);
             n = (if 0 \<le> s then \<bar>p\<bar> * 2 ^ nat s else \<bar>p\<bar>);
             d = (if 0 \<le> s then q else q * 2 ^ nat (- s))
         in fround (sgn p * (2 * (n div d) + (if n mod d = 0 then 0 else 1))) (- s - 1)))"

text \<open>\<open>int(x)\<close> truncates towards zero.\<close>

definition ftrunc :: "double \<Rightarrow> int" where
  "ftrunc d =
     (if 0 \<le> snd d then fst d * 2 ^ nat (snd d)
      else sgn (fst d) * (\<bar>fst d\<bar> div 2 ^ nat (- snd d)))"

section \<open>campaign_executor.py: the simulator\<close>

record platform_config =
  base_reach :: int
  engagement_rate :: double
  avg_followers :: int

definition initialize_platforms :: "(string \<times> platform_config) list" where
  "initialize_platforms =
     [(''LinkedIn'',
         \<lparr>base_reach = 10000, engagement_rate = nearest 25 1000, avg_followers = 5000\<rparr>),
      (''Twitter'',
         \<lparr>base_reach = 15000, engagement_rate = nearest 35 1000, avg_followers = 8000\<rparr>),
      (''Instagram'',
         \<lparr>base_reach = 20000, engagement_rate = nearest 45 1000, avg_followers = 12000\<rparr>),
      (''Facebook'',
         \<lparr>base_reach = 25000, engagement_rate = nearest 20 1000, avg_followers = 15000\<rparr>),
      (''TikTok'',
         \<lparr>base_reach = 30000, engagement_rate = nearest 55 1000, avg_followers = 20000\<rparr>)]"

record post_metrics =
  reach :: int
  engagements :: int
  likes :: int
  comments :: int
  shares :: int
  clicks :: int
  conversions :: int

record PostRecord =
  post_id :: string
  post_platform :: string
  content_preview :: string
  posted_at :: string
  post_scheduled_time :: string
  post_status :: string
  metrics :: post_metrics

record simulator =
  executed_campaigns :: "PostRecord list"
  platform_configs :: "(string \<times> platform_config) list"

definition new_simulator :: simulator where
  "new_simulator = \<lparr>executed_campaigns = [], platform_configs = initialize_platforms\<rparr>"

text \<open>
  What one call of \<open>post_to_platform\<close> reads from its environment: the clock, as the
  text of \<open>datetime.now().timestamp()\<close> and as the second reading of \<open>datetime.now()\<close>,
  and the four results of \<open>random.random()\<close> in the order of the calls.
\<close>

record post_env =
  timestamp_text :: string
  now_posted :: datetime
  draw1 :: double
  draw2 :: double
  draw3 :: double
  draw4 :: double

definition simulate_metrics :: "int \<Rightarrow> double \<Rightarrow> post_env \<Rightarrow> post_metrics" where
  "simulate_metrics base rate env =
     (let reach = ftrunc (fmul (float_of_int base)
                    (fadd (nearest 8 10) (fmul (draw1 env) (nearest 4 10))));
          engagements = ftrunc (fmul (fmul (float_of_int reach) rate)
                    (fadd (nearest 7 10) (fmul (draw2 env) (nearest 6 10))));
          clicks = ftrunc (fmul (fmul (float_of_int engagements) (nearest 2 10))
                    (fadd (nearest 5 10) (draw3 env)));
          conversions = ftrunc (fmul (fmul (float_of_int clicks) (nearest 5 100))
                    (fadd (nearest 3 10) (draw4 env)))
      in \<lparr>reach = reach, engagements = engagements,
          likes = ftrunc (fmul (float_of_int engagements) (nearest 7 10)),
          comments = ftrunc (fmul (float_of_int engagements) (nearest 2 10)),
          shares = ftrunc (fmul (float_of_int engagements) (nearest 1 10)),
          clicks = clicks, conversions = conversions\<rparr>)"

definition post_to_platform ::
  "simulator \<Rightarrow> post_env \<Rightarrow> string \<Rightarrow> string \<Rightarrow> string \<Rightarrow> simulator \<times> PostRecord" where
  "post_to_platform sim env p c st =
     (let config = map_of (platform_configs sim) p;
          base = (case config of None \<Rightarrow> 5000 | Some cf \<Rightarrow> base_reach cf);
          rate = (case config of None \<Rightarrow> nearest 3 100 | Some cf \<Rightarrow> engagement_rate cf);
          post_data = \<lparr>post_id = p @ ''_'' @ timestamp_text env, post_platform = p,
                       content_preview = py_take 100 c,
                       posted_at = isoformat (now_posted env), post_scheduled_time = st,
                       post_status = ''live'', metrics = simulate_metrics base rate env\<rparr>
      in (sim\<lparr>executed_campaigns := executed_campaigns sim @ [post_data]\<rparr>, post_data))"

text \<open>
  The dict that \<open>get_platform_analytics\<close> returns has two shapes. It is a record of its
  keys, \<open>None\<close> for a key that is absent; a rate is the int \<open>0\<close> or a float.
\<close>

datatype number = PyInt int | PyFloat double

record analytics =
  for_platform :: "string option"
  posts :: "int option"
  posts_count :: "int option"
  total_reach :: "int option"
  total_engagements :: "int option"
  avg_engagement_rate :: "number option"
  total_clicks :: "int option"
  total_conversions :: "int option"
  ctr :: "number option"
  conversion_rate :: "number option"

definition no_keys :: analytics where
  "no_keys =
     \<lparr>for_platform = None, posts = None, posts_count = None, total_reach = None,
      total_engagements = None, avg_engagement_rate = None, total_clicks = None,
      total_conversions = None, ctr = None, conversion_rate = None\<rparr>"

definition percentage :: "int \<Rightarrow> int \<Rightarrow> number" where
  "percentage a b = (if 0 < b then PyFloat (fmul (nearest a b) (float_of_int 100)) else PyInt 0)"

definition get_platform_analytics :: "simulator \<Rightarrow> string \<Rightarrow> analytics" where
  "get_platform_analytics sim p =
     (let platform_posts = filter (\<lambda>x. post_platform x = p) (executed_campaigns sim) in
      if platform_posts = [] then
        no_keys\<lparr>for_platform := Some p, posts := Some 0, total_reach := Some 0\<rparr>
      else
        (let reach_sum = sum_list (map (\<lambda>x. reach (metrics x)) platform_posts);
             engagements_sum = sum_list (map (\<lambda>x. engagements (metrics x)) platform_posts);
             clicks_sum = sum_list (map (\<lambda>x. clicks (metrics x)) platform_posts);
             conversions_sum = sum_list (map (\<lambda>x. conversions (metrics x)) platform_posts)
         in no_keys\<lparr>for_platform := Some p,
              posts_count := Some (int (length platform_posts)),
              total_reach := Some reach_sum,
              total_engagements := Some engagements_sum,
              avg_engagement_rate := Some (percentage engagements_sum reach_sum),
              total_clicks := Some clicks_sum,
              total_conversions := Some conversions_sum,
              ctr := Some (percentage clicks_sum reach_sum),
              conversion_rate := Some (percentage conversions_sum clicks_sum)\<rparr>))"

text \<open>
  \<open>get_all_analytics\<close> fills a dict in the order of the configured platforms; with
  distinct keys this is the list of the entries.
\<close>

definition get_all_analytics :: "simulator \<Rightarrow> (string \<times> analytics) list" where
  "get_all_analytics sim =
     map (\<lambda>p. (p, get_platform_analytics sim p)) (map fst (platform_configs sim))"

section \<open>campaign_executor.py: the executor\<close>

record log_entry =
  log_campaign_id :: string
  log_platform :: string
  execution_time :: string
  log_status :: string

record executor =
  sim :: simulator
  execution_log :: "log_entry list"

definition new_executor :: executor where
  "new_executor = \<lparr>sim = new_simulator, execution_log = []\<rparr>"

record execution_result =
  result_campaign_id :: string
  started_at :: string
  platforms_targeted :: "string list"
  result_posts :: "PostRecord list"

text \<open>
  The environment of \<open>execute_campaign\<close>: the clock at the start (read once for the
  default of \<open>start_time\<close> and once for \<open>started_at\<close>), and for the k-th post of the call
  what \<open>post_to_platform\<close> reads and the clock for the log entry.
\<close>

record campaign_env =
  now_default :: datetime
  now_started :: datetime
  post_envs :: "nat \<Rightarrow> post_env"
  now_logged :: "nat \<Rightarrow> datetime"

fun execute_loop ::
  "campaign_env \<Rightarrow> string \<Rightarrow> (string \<rightharpoonup> string) \<Rightarrow> string \<Rightarrow> string list
     \<Rightarrow> executor \<times> PostRecord list \<Rightarrow> executor \<times> PostRecord list" where
  "execute_loop env cid cmap st [] (ex, ps) = (ex, ps)"
| "execute_loop env cid cmap st (p # rest) (ex, ps) =
     (if content_for cmap p = [] then execute_loop env cid cmap st rest (ex, ps)
      else
        (let k = length ps;
             (sim', result) = post_to_platform (sim ex) (post_envs env k) p (content_for cmap p) st;
             entry = \<lparr>log_campaign_id = cid, log_platform = p,
                       execution_time = isoformat (now_logged env k), log_status = ''executed''\<rparr>
         in execute_loop env cid cmap st rest
              (ex\<lparr>sim := sim', execution_log := execution_log ex @ [entry]\<rparr>, ps @ [result])))"

definition execute_campaign ::
  "executor \<Rightarrow> campaign_env \<Rightarrow> string \<Rightarrow> string list \<Rightarrow> (string \<rightharpoonup> string) \<Rightarrow> string option
     \<Rightarrow> executor \<times> execution_result" where
  "execute_campaign ex env cid platforms cmap start_time =
     (let st = (case start_time of None \<Rightarrow> isoformat (now_default env) | Some s \<Rightarrow> s);
          (ex', ps) = execute_loop env cid cmap st platforms (ex, [])
      in (ex', \<lparr>result_campaign_id = cid, started_at = isoformat (now_started env),
                platforms_targeted = platforms, result_posts = ps\<rparr>))"

section \<open>orchestrator.py: schedule_campaigns\<close>

text \<open>
  A campaign plan is the dict that \<open>plan_campaign\<close> builds, without its \<open>strategies\<close>
  (the keys \<open>name\<close>, \<open>platforms\<close>, \<open>start_date\<close> and \<open>content\<close> are the fields
  \<open>plan_name\<close>, \<open>plan_platforms\<close>, \<open>plan_start_date\<close> and \<open>plan_content\<close>).
  Of the orchestrator the calendar and the registry of campaigns are kept; the printed
  lines go to the \<open>stdout\<close> of the calendar record.
\<close>

record CampaignPlan =
  plan_id :: string
  plan_name :: string
  target_audience :: string
  goal :: string
  plan_platforms :: "string list"
  budget :: string
  plan_start_date :: string
  duration_days :: int
  plan_content :: "string \<rightharpoonup> string"

record orchestrator =
  calendar :: calendar
  campaigns :: "string \<rightharpoonup> CampaignPlan"

definition cross_mark :: string where
  "cross_mark = [CHR 0xE2, CHR 0x9D, CHR 0x8C]"

definition print_line :: "orchestrator \<Rightarrow> string \<Rightarrow> orchestrator" where
  "print_line orc l = orc\<lparr>calendar := (calendar orc)\<lparr>stdout := stdout (calendar orc) @ [l]\<rparr>\<rparr>"

definition schedule_campaigns ::
  "runtime \<Rightarrow> orchestrator \<Rightarrow> string \<Rightarrow> string \<Rightarrow> orchestrator \<times> (error + ref list)" where
  "schedule_campaigns rt orc cid freq =
     (case campaigns orc cid of
        None \<Rightarrow> (print_line orc (cross_mark @ '' Campaign '' @ cid @ '' not found''), Inr [])
      | Some campaign \<Rightarrow>
          (let orc1 = print_line orc
                 (newline @ calendar_mark @ '' Scheduling campaign: '' @ plan_name campaign);
               orc2 = print_line orc1 (''   Frequency: '' @ freq)
           in (case schedule_campaign_across_platforms rt (calendar orc2) cid (plan_name campaign)
                      (plan_platforms campaign) (plan_content campaign) (plan_start_date campaign) freq of
                 (c', Inl e) \<Rightarrow> (orc2\<lparr>calendar := c'\<rparr>, Inl e)
               | (c', Inr evs) \<Rightarrow>
                   (print_line (orc2\<lparr>calendar := c'\<rparr>)
                      (check_mark @ '' Scheduled '' @ str_nat (length evs) @ '' posts across '' @
                       str_nat (length (plan_platforms campaign)) @ '' platforms''),
                    Inr evs))))"

section \<open>performance_tracker.py: the report\<close>

text \<open>
  The formats of the report: \<open>{x:,}\<close> for an int, \<open>{x:.2f}\<close> for an int or a float (the
  value is rounded to hundredths, ties to even, on its exact binary value), and
  \<open>strftime('%Y-%m-%d %H:%M:%S')\<close>.
\<close>

fun comma_nat :: "nat \<Rightarrow> string" where
  "comma_nat n =
     (if n < 1000 then str_nat n else comma_nat (n div 1000) @ '','' @ zfill 3 (n mod 1000))"

declare comma_nat.simps [simp del]

definition format_comma :: "int \<Rightarrow> string" where
  "format_comma i = (if i < 0 then ''-'' @ comma_nat (nat (- i)) else comma_nat (nat i))"

definition hundredths :: "double \<Rightarrow> nat" where
  "hundredths d =
     (if 0 \<le> snd d then nat (\<bar>fst d\<bar> * 2 ^ nat (snd d) * 100)
      else
        (let n = \<bar>fst d\<bar> * 100;
             k = 2 ^ nat (- snd d);
             q = n div k;
             r = n mod k
         in nat (if 2 * r < k \<or> (2 * r = k \<and> even q) then q else q + 1)))"

definition format_2f_double :: "double \<Rightarrow> string" where
  "format_2f_double d =
     (if fst d < 0 then ''-'' else []) @ str_nat (hundredths d div 100) @ ''.'' @
     zfill 2 (hundredths d mod 100)"

fun format_2f :: "number \<Rightarrow> string" where
  "format_2f (PyInt i) = format_2f_double (float_of_int i)"
| "format_2f (PyFloat d) = format_2f_double d"

definition strftime_seconds :: "datetime \<Rightarrow> string" where
  "strftime_seconds d =
     date_text d @ '' '' @ zfill 2 (hour d) @ '':'' @ zfill 2 (minute d) @ '':'' @
     zfill 2 (second d)"

definition getd :: "'a option \<Rightarrow> 'a \<Rightarrow> 'a" where
  "getd v dflt = (case v of None \<Rightarrow> dflt | Some x \<Rightarrow> x)"

definition chart_mark :: string where
  "chart_mark = [CHR 0xF0, CHR 0x9F, CHR 0x93, CHR 0x8A]"

definition phone_mark :: string where
  "phone_mark = [CHR 0xF0, CHR 0x9F, CHR 0x93, CHR 0xB1]"

definition trend_mark :: string where
  "trend_mark = [CHR 0xF0, CHR 0x9F, CHR 0x93, CHR 0x88]"

text \<open>
  The report is built by appending pieces, one per \<open>report += ...\<close>. \<open>platform_section\<close>
  is the list of the pieces of one iteration of the loop over \<open>analytics.items()\<close>.
\<close>

definition conversion_rate_piece :: "analytics \<Rightarrow> string" where
  "conversion_rate_piece d =
     ''  Conv. Rate:        '' @ format_2f (getd (conversion_rate d) (PyInt 0)) @ ''%'' @ newline"

definition ctr_piece :: "analytics \<Rightarrow> string" where
  "ctr_piece d = ''  CTR:               '' @ format_2f (getd (ctr d) (PyInt 0)) @ ''%'' @ newline"

definition platform_section :: "string \<Rightarrow> analytics \<Rightarrow> string list" where
  "platform_section p d =
     [newline @ phone_mark @ '' '' @ p @ newline,
      replicate 40 CHR ''-'' @ newline,
      ''  Posts:             '' @ str_int (getd (posts_count d) 0) @ newline,
      ''  Total Reach:       '' @ format_comma (getd (total_reach d) 0) @ newline,
      ''  Engagements:       '' @ format_comma (getd (total_engagements d) 0) @ newline,
      ''  Engagement Rate:   '' @ format_2f (getd (avg_engagement_rate d) (PyInt 0)) @ ''%'' @
        newline,
      ''  Clicks:            '' @ format_comma (getd (total_clicks d) 0) @ newline,
      ctr_piece d,
      ''  Conversions:       '' @ format_comma (getd (total_conversions d) 0) @ newline] @
     (if 0 < getd (total_clicks d) 0 then [conversion_rate_piece d] else [])"

definition report_header :: "datetime \<Rightarrow> string list" where
  "report_header now =
     [newline @ replicate 80 CHR ''='' @ newline,
      chart_mark @ '' CAMPAIGN PERFORMANCE REPORT'' @ newline,
      replicate 80 CHR ''='' @ newline @ newline,
      ''Generated: '' @ strftime_seconds now @ newline @ newline]"

definition report_summary :: "(string \<times> analytics) list \<Rightarrow> string list" where
  "report_summary an =
     (let reach_sum = sum_list (map (\<lambda>(p, d). getd (total_reach d) 0) an);
          engagements_sum = sum_list (map (\<lambda>(p, d). getd (total_engagements d) 0) an);
          conversions_sum = sum_list (map (\<lambda>(p, d). getd (total_conversions d) 0) an)
      in [newline @ newline @ trend_mark @ '' OVERALL SUMMARY'' @ newline,
          replicate 40 CHR ''-'' @ newline,
          ''  Total Reach:       '' @ format_comma reach_sum @ newline,
          ''  Total Engagements: '' @ format_comma engagements_sum @ newline,
          ''  Total Conversions: '' @ format_comma conversions_sum @ newline] @
         (if 0 < reach_sum then
            [''  Avg Engagement %:  '' @
             format_2f_double (fmul (nearest engagements_sum reach_sum) (float_of_int 100)) @
             ''%'' @ newline]
          else []) @
         [newline @ replicate 80 CHR ''='' @ newline])"

definition report_pieces :: "datetime \<Rightarrow> (string \<times> analytics) list \<Rightarrow> string list" where
  "report_pieces now an =
     report_header now @ concat (map (\<lambda>(p, d). platform_section p d) an) @ report_summary an"

definition generate_performance_report :: "datetime \<Rightarrow> (string \<times> analytics) list \<Rightarrow> string" where
  "generate_performance_report now an = concat (report_pieces now an)"

text \<open>
  \<open>random.random()\<close> returns a multiple of \<open>2 ^ -53\<close> in \<open>[0, 1)\<close>.
\<close>

definition is_draw :: "double \<Rightarrow> bool" where
  "is_draw d = (snd d = - 53 \<and> 0 \<le> fst d \<and> fst d < 2 ^ 53)"

text \<open>The draws of the sample are 0, 5/64, 1/2 and 1/4.\<close>

definition sample_post_env :: post_env where
  "sample_post_env =
     \<lparr>timestamp_text = ''1704099600.25'', now_posted = jan_1_2024_9am, draw1 = (0, - 53),
      draw2 = (703687441776640, - 53), draw3 = (4503599627370496, - 53),
      draw4 = (2251799813685248, - 53)\<rparr>"

definition sample_campaign_env :: campaign_env where
  "sample_campaign_env =
     \<lparr>now_default = jan_1_2024_9am, now_started = jan_1_2024_9am,
      post_envs = (\<lambda>k. sample_post_env), now_logged = (\<lambda>k. jan_1_2024_9am)\<rparr>"

definition sample_plan :: CampaignPlan where
  "sample_plan =
     \<lparr>plan_id = ''camp_1'', plan_name = ''Launch'', target_audience = ''Developers'',
      goal = ''Awareness'', plan_platforms = [''LinkedIn'', ''Twitter''], budget = ''$5000'',
      plan_start_date = ''2024-01-01T09:00:00'', duration_days = 28,
      plan_content = map_of [(''LinkedIn'', ''Hello''), (''Twitter'', ''Hi'')]\<rparr>"

definition sample_orchestrator :: orchestrator where
  "sample_orchestrator =
     \<lparr>calendar = empty_calendar, campaigns = map_of [(''camp_1'', sample_plan)]\<rparr>"





fun fixed_digits :: "nat \<Rightarrow> nat \<Rightarrow> string" where
  "fixed_digits 0 n = []"
| "fixed_digits (Suc w) n = fixed_digits w (n div 10) @ [digit_char (n mod 10)]"





section \<open>Properties of the calendar\<close>

text \<open>
  C3: for every event object, \<open>execute_event\<close> sets its status to \<open>Executed\<close> and
  attaches the metrics \<open>reach = 5000 + hash(id) mod 10000\<close>,
  \<open>engagement = 250 + hash(id) mod 1000\<close>, \<open>clicks = 50 + hash(id) mod 500\<close>,
  \<open>conversions = 5 + hash(id) mod 50\<close>; the metrics are then non-empty and the reach
  is at least 5000.
\<close>

theorem execute_event_metrics:
  assumes "r < length (heap c)"
  shows "status (heap (execute_event rt c r) ! r) = ''Executed''
    \<and> performance_metrics (heap (execute_event rt c r) ! r) =
        [(''reach'', 5000 + hash rt (campaign_id (heap c ! r)) mod 10000),
         (''engagement'', 250 + hash rt (campaign_id (heap c ! r)) mod 1000),
         (''clicks'', 50 + hash rt (campaign_id (heap c ! r)) mod 500),
         (''conversions'', 5 + hash rt (campaign_id (heap c ! r)) mod 50)]
    \<and> performance_metrics (heap (execute_event rt c r) ! r) \<noteq> []
    \<and> (\<exists>v. map_of (performance_metrics (heap (execute_event rt c r) ! r)) ''reach'' = Some v
           \<and> 5000 \<le> v)"
  using assms by (simp add: execute_event_def execute_metrics_def Let_def)

theorem execute_event_metrics_witness:
  "status (heap (execute_event \<lparr>fromisoformat = \<lambda>s. None, hash = \<lambda>s. - 7\<rparr>
      (fst (alloc empty_calendar
        (new_event ''c1'' ''LinkedIn'' ''Launch'' ''Hello'' ''2024-01-01T09:00:00''))) 0) ! 0)
     = ''Executed''
   \<and> map_of (performance_metrics (heap (execute_event
      \<lparr>fromisoformat = \<lambda>s. None, hash = \<lambda>s. - 7\<rparr>
      (fst (alloc empty_calendar
        (new_event ''c1'' ''LinkedIn'' ''Launch'' ''Hello'' ''2024-01-01T09:00:00''))) 0) ! 0))
      ''reach'' = Some 14993"
  using execute_event_metrics [of 0 "fst (alloc empty_calendar
      (new_event ''c1'' ''LinkedIn'' ''Launch'' ''Hello'' ''2024-01-01T09:00:00''))"
      "\<lparr>fromisoformat = \<lambda>s. None, hash = \<lambda>s. - 7\<rparr>"]
  by (simp add: alloc_def empty_calendar_def new_event_def)

section \<open>Scheduling across platforms\<close>

lemma add_alloc:
  "add_event (fst (alloc c ev)) (length (heap c)) =
     c\<lparr>heap := heap c @ [ev], events := events c @ [length (heap c)],
       stdout := stdout c @ [added_line ev]\<rparr>"
  by (simp add: add_event_def alloc_def)

lemma snd_alloc: "snd (alloc c ev) = length (heap c)"
  by (simp add: alloc_def)

lemma upt_shift: "[n..<Suc (n + k)] = n # [Suc n..<Suc n + k]"
  by (simp add: upt_rec)

lemma schedule_loop_ok:
  "(\<And>i. i \<in> set js \<Longrightarrow> mk i = Inr (ev i)) \<Longrightarrow>
   schedule_loop c mk js acc =
     (appended c (map ev js), acc @ [length (heap c)..<length (heap c) + length js], None)"
proof (induction js arbitrary: c acc)
  case Nil
  then show ?case by (simp add: appended_def)
next
  case (Cons j js)
  have "mk j = Inr (ev j)" using Cons.prems by simp
  moreover have "\<And>i. i \<in> set js \<Longrightarrow> mk i = Inr (ev i)" using Cons.prems by simp
  ultimately show ?case
    by (simp add: Cons.IH add_alloc snd_alloc upt_shift appended_def del: upt_Suc)
qed

lemma upt_split: "[a..<a + x] @ [a + x..<a + x + y] = [a..<a + (x + y)]"
  using upt_add_eq_append [of a "a + x" y] by (simp add: add.assoc)

lemma appended_appended: "appended (appended c xs) ys = appended c (xs @ ys)"
  by (simp add: appended_def upt_split)

lemma heap_appended: "heap (appended c xs) = heap c @ xs"
  by (simp add: appended_def)

lemma add_days_ok:
  "0 < toordinal start \<Longrightarrow> toordinal start + n \<le> max_ordinal \<Longrightarrow>
   add_days start (int n) = Inr (with_ordinal start (toordinal start + n))"
  by (simp add: add_days_def Let_def nat_add_distrib)

lemma loop_occurrences:
  assumes "freq = ''once'' \<or> 0 < toordinal start \<and> toordinal start + horizon freq \<le> max_ordinal"
  shows "freq = ''once'' \<Longrightarrow>
      schedule_loop c (\<lambda>i. Inr (new_event cid p t x (isoformat start))) [0] acc =
       (appended c (occurrences freq cid t p x start),
        acc @ [length (heap c)..<length (heap c) + length (occurrences freq cid t p x start)], None)"
   and "freq = ''daily'' \<Longrightarrow>
      schedule_loop c (daily_event cid t p x start) [0..<7] acc =
       (appended c (occurrences freq cid t p x start),
        acc @ [length (heap c)..<length (heap c) + length (occurrences freq cid t p x start)], None)"
   and "freq = ''weekly'' \<Longrightarrow>
      schedule_loop c (weekly_event cid t p x start) [0..<4] acc =
       (appended c (occurrences freq cid t p x start),
        acc @ [length (heap c)..<length (heap c) + length (occurrences freq cid t p x start)], None)"
proof -
  show "freq = ''once'' \<Longrightarrow>
      schedule_loop c (\<lambda>i. Inr (new_event cid p t x (isoformat start))) [0] acc =
       (appended c (occurrences freq cid t p x start),
        acc @ [length (heap c)..<length (heap c) + length (occurrences freq cid t p x start)], None)"
    by (simp add: occurrences_def appended_def add_alloc snd_alloc)
next
  assume f: "freq = ''daily''"
  then have r: "0 < toordinal start" "toordinal start + 6 \<le> max_ordinal"
    using assms by (simp_all add: horizon_def)
  have "schedule_loop c (daily_event cid t p x start) [0..<7] acc =
      (appended c (map (\<lambda>i. new_event (cid @ ''_day'' @ str_nat (i + 1)) p
          (t @ '' - Day '' @ str_nat (i + 1)) x
          (isoformat (with_ordinal start (toordinal start + i)))) [0..<7]),
       acc @ [length (heap c)..<length (heap c) + length [0..<7]], None)"
  proof (rule schedule_loop_ok)
    fix i assume "i \<in> set [0..<7]"
    then have "toordinal start + i \<le> max_ordinal" using r by simp
    then show "daily_event cid t p x start i =
      Inr (new_event (cid @ ''_day'' @ str_nat (i + 1)) p (t @ '' - Day '' @ str_nat (i + 1)) x
          (isoformat (with_ordinal start (toordinal start + i))))"
      using r by (simp add: daily_event_def add_days_ok)
  qed
  then show "schedule_loop c (daily_event cid t p x start) [0..<7] acc =
       (appended c (occurrences freq cid t p x start),
        acc @ [length (heap c)..<length (heap c) + length (occurrences freq cid t p x start)], None)"
    using f by (simp add: occurrences_def del: upt_Suc)
next
  assume f: "freq = ''weekly''"
  then have r: "0 < toordinal start" "toordinal start + 21 \<le> max_ordinal"
    using assms by (simp_all add: horizon_def)
  have "schedule_loop c (weekly_event cid t p x start) [0..<4] acc =
      (appended c (map (\<lambda>i. new_event (cid @ ''_week'' @ str_nat (i + 1)) p
          (t @ '' - Week '' @ str_nat (i + 1)) x
          (isoformat (with_ordinal start (toordinal start + 7 * i)))) [0..<4]),
       acc @ [length (heap c)..<length (heap c) + length [0..<4]], None)"
  proof (rule schedule_loop_ok)
    fix i assume "i \<in> set [0..<4]"
    then have "toordinal start + 7 * i \<le> max_ordinal" using r by simp
    then show "weekly_event cid t p x start i =
      Inr (new_event (cid @ ''_week'' @ str_nat (i + 1)) p (t @ '' - Week '' @ str_nat (i + 1)) x
          (isoformat (with_ordinal start (toordinal start + 7 * i))))"
      using r add_days_ok [of start "7 * i"] by (simp add: weekly_event_def)
  qed
  then show "schedule_loop c (weekly_event cid t p x start) [0..<4] acc =
       (appended c (occurrences freq cid t p x start),
        acc @ [length (heap c)..<length (heap c) + length (occurrences freq cid t p x start)], None)"
    using f by (simp add: occurrences_def del: upt_Suc)
qed

lemma schedule_platforms_ok:
  assumes "freq = ''once'' \<or> 0 < toordinal start \<and> toordinal start + horizon freq \<le> max_ordinal"
  shows "schedule_platforms c cid t cmap start freq ps acc =
     (appended c (concat (map (\<lambda>p. occurrences freq cid t p (content_for cmap p) start) ps)),
      Inr (acc @ [length (heap c)..<length (heap c) +
         length (concat (map (\<lambda>p. occurrences freq cid t p (content_for cmap p) start) ps))]))"
proof (induction ps arbitrary: c acc)
  case Nil
  show ?case by (simp add: appended_def)
next
  case (Cons p ps)
  let ?os = "occurrences freq cid t p (content_for cmap p) start"
  have step: "schedule_platforms c cid t cmap start freq (p # ps) acc =
      schedule_platforms (appended c ?os) cid t cmap start freq ps
        (acc @ [length (heap c)..<length (heap c) + length ?os])"
  proof -
    consider "freq = ''once''" | "freq = ''daily''" | "freq = ''weekly''"
      | "freq \<noteq> ''once''" "freq \<noteq> ''daily''" "freq \<noteq> ''weekly''"
      by blast
    then show ?thesis
    proof cases
      case 1
      then show ?thesis
        using loop_occurrences(1) [OF assms 1, of c cid p t "content_for cmap p" acc]
        by (simp add: Let_def del: schedule_loop.simps)
    next
      case 2
      then show ?thesis
        using loop_occurrences(2) [OF assms 2, of c cid t p "content_for cmap p" acc]
        by (simp add: Let_def del: schedule_loop.simps upt_Suc)
    next
      case 3
      then show ?thesis
        using loop_occurrences(3) [OF assms 3, of c cid t p "content_for cmap p" acc]
        by (simp add: Let_def del: schedule_loop.simps upt_Suc)
    next
      case 4
      then show ?thesis by (simp add: Let_def occurrences_def appended_def)
    qed
  qed
  show ?case
    unfolding step Cons.IH
    by (simp add: appended_appended heap_appended upt_split)
qed

lemma length_occurrences: "length (occurrences freq cid t p x start) = per_platform freq"
  by (simp add: occurrences_def per_platform_def)

lemma length_concat_occurrences:
  "length (concat (map (\<lambda>p. occurrences freq cid t p (f p) start) ps)) =
     per_platform freq * length ps"
  by (induction ps) (simp_all add: length_occurrences)

lemma str_nat_digit: "n < 10 \<Longrightarrow> str_nat n = [digit_char n]"
  by (simp add: str_nat.simps)

lemma digit_chars:
  "digit_char 0 = CHR ''0''" "digit_char 1 = CHR ''1''" "digit_char 2 = CHR ''2''"
  "digit_char 3 = CHR ''3''" "digit_char 4 = CHR ''4''" "digit_char 5 = CHR ''5''"
  "digit_char 6 = CHR ''6''" "digit_char 7 = CHR ''7''" "digit_char 8 = CHR ''8''"
  "digit_char 9 = CHR ''9''" "digit_char (Suc 0) = CHR ''1''"
  "digit_char (Suc (Suc 0)) = CHR ''2''"
  by code_simp+

lemma schedule_campaign_result:
  assumes "fromisoformat rt start_date = Some start"
    and "freq = ''once'' \<or> 0 < toordinal start \<and> toordinal start + horizon freq \<le> max_ordinal"
  shows "schedule_campaign_across_platforms rt c cid t ps cmap start_date freq =
     (appended c (concat (map (\<lambda>p. occurrences freq cid t p (content_for cmap p) start) ps)),
      Inr [length (heap c)..<length (heap c) + per_platform freq * length ps])"
  unfolding schedule_campaign_across_platforms_def
  using assms(1) schedule_platforms_ok [OF assms(2), of c cid t cmap ps "[]"]
  by (simp add: length_concat_occurrences)

lemma upt_7: "[0..<7] = [0, 1, 2, 3, 4, 5, 6]"
  by (simp add: upt_rec)

lemma upt_4: "[0..<4] = [0, 1, 2, 3]"
  by (simp add: upt_rec)

lemma daily_ids:
  "map campaign_id (occurrences ''daily'' cid t p x start) =
     [cid @ ''_day1'', cid @ ''_day2'', cid @ ''_day3'', cid @ ''_day4'', cid @ ''_day5'',
      cid @ ''_day6'', cid @ ''_day7'']"
  by (simp add: occurrences_def new_event_def upt_7 str_nat_digit digit_chars)

lemma weekly_ids:
  "map campaign_id (occurrences ''weekly'' cid t p x start) =
     [cid @ ''_week1'', cid @ ''_week2'', cid @ ''_week3'', cid @ ''_week4'']"
  by (simp add: occurrences_def new_event_def upt_4 str_nat_digit digit_chars)

lemma once_ids: "map campaign_id (occurrences ''once'' cid t p x start) = [cid]"
  by (simp add: occurrences_def new_event_def)

lemma parse_jan_1: "fromisoformat cpython_basic ''2024-01-01T09:00:00'' = Some jan_1_2024_9am"
  by (simp add: cpython_basic_def fromisoformat_basic_def parse_date_def parse_time_def
      make_datetime_def parse_digits_def digit_of_def
      valid_datetime_def days_in_month_def jan_1_2024_9am_def)

lemma ordinal_jan_1: "toordinal jan_1_2024_9am = 738886"
  by (simp add: toordinal_def ymd2ord_def days_before_year_def days_before_month_def
      days_before_month_tab_def is_leap_def jan_1_2024_9am_def)

lemma jan_1_in_range:
  "freq = ''once'' \<or>
   0 < toordinal jan_1_2024_9am \<and> toordinal jan_1_2024_9am + horizon freq \<le> max_ordinal"
  by (simp add: ordinal_jan_1 horizon_def max_ordinal_def)

text \<open>
  C1, as amended: when \<open>start_date\<close> parses (to a date from year 1 on) and the last
  occurrence does not pass year 9999, scheduling on N platforms returns and appends
  exactly 7N (\<open>daily\<close>), 4N (\<open>weekly\<close>) or N (\<open>once\<close>) new events, platform by platform
  the events the specification lists; the seven (four) ids of one platform are
  \<open>campaign_id_day1..7\<close> (\<open>_week1..4\<close>) and distinct, and \<open>once\<close> keeps the campaign id.
\<close>

theorem schedule_campaign_events:
  assumes "fromisoformat rt start_date = Some start"
    and "freq = ''once'' \<or> 0 < toordinal start \<and> toordinal start + horizon freq \<le> max_ordinal"
    and "freq = ''once'' \<or> freq = ''daily'' \<or> freq = ''weekly''"
  shows "snd (schedule_campaign_across_platforms rt c cid t ps cmap start_date freq) =
           Inr [length (heap c)..<length (heap c) + per_platform freq * length ps]
    \<and> events (fst (schedule_campaign_across_platforms rt c cid t ps cmap start_date freq)) =
           events c @ [length (heap c)..<length (heap c) + per_platform freq * length ps]
    \<and> heap (fst (schedule_campaign_across_platforms rt c cid t ps cmap start_date freq)) =
           heap c @ concat (map (\<lambda>p. occurrences freq cid t p (content_for cmap p) start) ps)
    \<and> per_platform ''daily'' = 7 \<and> per_platform ''weekly'' = 4 \<and> per_platform ''once'' = 1
    \<and> map campaign_id (occurrences ''daily'' cid t p x start) =
           [cid @ ''_day1'', cid @ ''_day2'', cid @ ''_day3'', cid @ ''_day4'', cid @ ''_day5'',
            cid @ ''_day6'', cid @ ''_day7'']
    \<and> map campaign_id (occurrences ''weekly'' cid t p x start) =
           [cid @ ''_week1'', cid @ ''_week2'', cid @ ''_week3'', cid @ ''_week4'']
    \<and> map campaign_id (occurrences ''once'' cid t p x start) = [cid]
    \<and> map scheduled_time (occurrences ''once'' cid t p x start) = [isoformat start]
    \<and> distinct (map campaign_id (occurrences freq cid t p x start))"
proof -
  let ?R = "schedule_campaign_across_platforms rt c cid t ps cmap start_date freq"
  note R = schedule_campaign_result [OF assms(1,2), of c cid t ps cmap]
  have 1: "snd ?R = Inr [length (heap c)..<length (heap c) + per_platform freq * length ps]"
    by (simp add: R)
  have 2: "events (fst ?R) =
      events c @ [length (heap c)..<length (heap c) + per_platform freq * length ps]"
    by (simp add: R appended_def length_concat_occurrences)
  have 3: "heap (fst ?R) =
      heap c @ concat (map (\<lambda>p. occurrences freq cid t p (content_for cmap p) start) ps)"
    by (simp add: R appended_def)
  have 4: "per_platform ''daily'' = 7 \<and> per_platform ''weekly'' = 4 \<and> per_platform ''once'' = 1"
    by (simp add: per_platform_def)
  have 5: "map scheduled_time (occurrences ''once'' cid t p x start) = [isoformat start]"
    by (simp add: occurrences_def new_event_def)
  have 6: "distinct (map campaign_id (occurrences freq cid t p x start))"
    using assms(3) by (auto simp: daily_ids weekly_ids once_ids)
  show ?thesis
    using 1 2 3 4 5 6 daily_ids [of cid t p x start] weekly_ids [of cid t p x start]
      once_ids [of cid t p x start]
    by blast
qed

theorem schedule_campaign_events_witness:
  "snd (schedule_campaign_across_platforms cpython_basic empty_calendar ''c'' ''Launch''
      [''LinkedIn'', ''Twitter''] (map_of [(''LinkedIn'', ''Hello'')]) ''2024-01-01T09:00:00''
      ''daily'') = Inr [0..<14]"
  using schedule_campaign_events [OF parse_jan_1 jan_1_in_range, of "''daily''"
      empty_calendar "''c''" "''Launch''" "[''LinkedIn'', ''Twitter'']"
      "map_of [(''LinkedIn'', ''Hello'')]"]
  by (simp add: empty_calendar_def per_platform_def)

lemma parse_tomorrow: "fromisoformat cpython_basic ''tomorrow'' = None"
  by (simp add: cpython_basic_def fromisoformat_basic_def parse_date_def)

theorem schedule_campaign_counterexample:
  "schedule_campaign_across_platforms cpython_basic empty_calendar ''c'' ''Launch''
      [''LinkedIn''] (map_of [(''LinkedIn'', ''Hello'')]) ''tomorrow'' ''daily''
     = (empty_calendar, Inl ValueError)
   \<and> length (heap (fst (schedule_campaign_across_platforms cpython_basic empty_calendar ''c''
        ''Launch'' [''LinkedIn'', ''Twitter''] (map_of [(''LinkedIn'', ''Hello'')])
        ''2024-01-01T09:00:00'' ''daily''))) = 14
   \<and> \<not> distinct (map campaign_id (heap (fst (schedule_campaign_across_platforms cpython_basic
        empty_calendar ''c'' ''Launch'' [''LinkedIn'', ''Twitter'']
        (map_of [(''LinkedIn'', ''Hello'')]) ''2024-01-01T09:00:00'' ''daily''))))"
proof -
  have "schedule_campaign_across_platforms cpython_basic empty_calendar ''c'' ''Launch''
      [''LinkedIn''] (map_of [(''LinkedIn'', ''Hello'')]) ''tomorrow'' ''daily''
     = (empty_calendar, Inl ValueError)"
    by (simp add: schedule_campaign_across_platforms_def parse_tomorrow)
  then show ?thesis
    by (simp add: schedule_campaign_result [OF parse_jan_1 jan_1_in_range] appended_def
        empty_calendar_def length_occurrences per_platform_def daily_ids)
qed

section \<open>The metrics invariant\<close>

lemma inv_alloc:
  "calendar_inv c \<Longrightarrow> metrics_iff_executed e \<Longrightarrow> calendar_inv (fst (alloc c e))"
  by (auto simp: calendar_inv_def alloc_def list_all_iff)

lemma inv_add_event: "calendar_inv c \<Longrightarrow> calendar_inv (add_event c r)"
  by (auto simp: calendar_inv_def add_event_def list_all_iff)

lemma inv_execute_event: "calendar_inv c \<Longrightarrow> calendar_inv (execute_event rt c r)"
  by (auto simp: calendar_inv_def execute_event_def list_all_iff Let_def
      metrics_iff_executed_def execute_metrics_def dest!: set_update_subset_insert [THEN subsetD])

lemma new_event_consistent: "metrics_iff_executed (new_event cid p t x st)"
  by (simp add: metrics_iff_executed_def new_event_def)

lemma inv_schedule_loop:
  "calendar_inv c \<Longrightarrow> (\<And>i ev. mk i = Inr ev \<Longrightarrow> metrics_iff_executed ev) \<Longrightarrow>
   calendar_inv (fst (schedule_loop c mk js acc))"
proof (induction js arbitrary: c acc)
  case Nil
  then show ?case by simp
next
  case (Cons j js)
  show ?case
  proof (cases "mk j")
    case (Inl e)
    then show ?thesis using Cons.prems(1) by simp
  next
    case (Inr ev)
    then have "calendar_inv (add_event (fst (alloc c ev)) (snd (alloc c ev)))"
      using Cons.prems by (simp add: inv_alloc inv_add_event)
    then show ?thesis using Inr Cons.IH Cons.prems(2) by simp
  qed
qed

lemma daily_event_consistent: "daily_event cid t p x start i = Inr ev \<Longrightarrow> metrics_iff_executed ev"
  by (auto simp: daily_event_def new_event_consistent split: sum.splits)

lemma weekly_event_consistent:
  "weekly_event cid t p x start i = Inr ev \<Longrightarrow> metrics_iff_executed ev"
  by (auto simp: weekly_event_def new_event_consistent split: sum.splits)

lemma inv_schedule_platforms:
  "calendar_inv c \<Longrightarrow> calendar_inv (fst (schedule_platforms c cid t cmap start freq ps acc))"
proof (induction ps arbitrary: c acc)
  case Nil
  then show ?case by simp
next
  case (Cons p ps)
  let ?x = "content_for cmap p"
  have once: "calendar_inv
      (fst (schedule_loop c (\<lambda>i. Inr (new_event cid p t ?x (isoformat start))) [0] acc))"
    by (rule inv_schedule_loop [OF Cons.prems]) (auto simp: new_event_consistent)
  have daily: "calendar_inv (fst (schedule_loop c (daily_event cid t p ?x start) [0..<7] acc))"
    by (rule inv_schedule_loop [OF Cons.prems]) (rule daily_event_consistent)
  have weekly: "calendar_inv (fst (schedule_loop c (weekly_event cid t p ?x start) [0..<4] acc))"
    by (rule inv_schedule_loop [OF Cons.prems]) (rule weekly_event_consistent)
  consider "freq = ''once''" | "freq = ''daily''" | "freq = ''weekly''"
    | "freq \<noteq> ''once''" "freq \<noteq> ''daily''" "freq \<noteq> ''weekly''"
    by blast
  then show ?case
  proof cases
    case 1
    then show ?thesis
      using once Cons.IH
      by (auto simp: Let_def split: prod.splits simp del: schedule_loop.simps)
  next
    case 2
    then show ?thesis
      using daily Cons.IH
      by (auto simp: Let_def split: prod.splits option.splits
          simp del: schedule_loop.simps upt_Suc)
  next
    case 3
    then show ?thesis
      using weekly Cons.IH
      by (auto simp: Let_def split: prod.splits option.splits
          simp del: schedule_loop.simps upt_Suc)
  next
    case 4
    then show ?thesis
      using Cons.prems Cons.IH by (simp add: Let_def)
  qed
qed

lemma inv_step: "calendar_inv c \<Longrightarrow> constructs_consistent x \<Longrightarrow> calendar_inv (step rt c x)"
proof (cases x)
  case (Schedule cid t ps cm sd f)
  assume "calendar_inv c"
  then show ?thesis
    using Schedule inv_schedule_platforms [of c]
    by (simp add: schedule_campaign_across_platforms_def split: option.splits)
qed (simp_all add: inv_alloc inv_add_event inv_execute_event)

lemma inv_run:
  "calendar_inv c \<Longrightarrow> list_all constructs_consistent xs \<Longrightarrow> calendar_inv (run rt c xs)"
  by (induction xs arbitrary: c) (simp_all add: inv_step)

text \<open>
  C2, as amended: in every calendar reached from the empty one by constructor calls that
  build events whose metrics are non-empty exactly when their status is \<open>Executed\<close> (as
  the default arguments do), and by \<open>add_event\<close>,
  \<open>schedule_campaign_across_platforms\<close> and \<open>execute_event\<close> calls, every event of the
  event list has non-empty metrics if and only if its status is \<open>Executed\<close>.
\<close>

theorem metrics_iff_executed_reachable:
  assumes "list_all constructs_consistent calls"
    and "r \<in> set (events (run rt empty_calendar calls))"
  shows "performance_metrics (heap (run rt empty_calendar calls) ! r) \<noteq> [] \<longleftrightarrow>
         status (heap (run rt empty_calendar calls) ! r) = ''Executed''"
proof -
  have "calendar_inv empty_calendar"
    by (simp add: calendar_inv_def empty_calendar_def)
  then have "calendar_inv (run rt empty_calendar calls)"
    using assms(1) by (rule inv_run)
  then show ?thesis
    using assms(2) by (auto simp: calendar_inv_def list_all_iff metrics_iff_executed_def)
qed

theorem metrics_iff_executed_reachable_witness:
  "status (heap (run cpython_basic empty_calendar
       [Construct (new_event ''c1'' ''LinkedIn'' ''Launch'' ''Hello'' ''2024-01-01T09:00:00''),
        Add_event 0, Execute_event 0]) ! 0) = ''Executed''
   \<and> performance_metrics (heap (run cpython_basic empty_calendar
       [Construct (new_event ''c1'' ''LinkedIn'' ''Launch'' ''Hello'' ''2024-01-01T09:00:00''),
        Add_event 0, Execute_event 0]) ! 0) \<noteq> []"
proof -
  let ?calls = "[Construct (new_event ''c1'' ''LinkedIn'' ''Launch'' ''Hello''
      ''2024-01-01T09:00:00''), Add_event 0, Execute_event 0]"
  have a: "list_all constructs_consistent ?calls"
    by (simp add: new_event_consistent)
  have b: "0 \<in> set (events (run cpython_basic empty_calendar ?calls))"
    by (simp add: alloc_def add_event_def execute_event_def empty_calendar_def Let_def)
  have c: "status (heap (run cpython_basic empty_calendar ?calls) ! 0) = ''Executed''"
    by (simp add: alloc_def add_event_def execute_event_def empty_calendar_def Let_def)
  from metrics_iff_executed_reachable [OF a b] c show ?thesis by simp
qed

theorem metrics_iff_executed_counterexample:
  "events (run cpython_basic empty_calendar
       [Construct ((new_event ''c1'' ''LinkedIn'' ''Launch'' ''Hello'' ''2024-01-01T09:00:00'')
          \<lparr>status := ''Executed''\<rparr>), Add_event 0]) = [0]
   \<and> status (heap (run cpython_basic empty_calendar
       [Construct ((new_event ''c1'' ''LinkedIn'' ''Launch'' ''Hello'' ''2024-01-01T09:00:00'')
          \<lparr>status := ''Executed''\<rparr>), Add_event 0]) ! 0) = ''Executed''
   \<and> performance_metrics (heap (run cpython_basic empty_calendar
       [Construct ((new_event ''c1'' ''LinkedIn'' ''Launch'' ''Hello'' ''2024-01-01T09:00:00'')
          \<lparr>status := ''Executed''\<rparr>), Add_event 0]) ! 0) = []"
  by (simp add: alloc_def add_event_def empty_calendar_def new_event_def)

section \<open>The exported document\<close>

lemma isoformat_jan_1: "isoformat jan_1_2024_9am = ''2024-01-01T09:00:00''"
  by (simp add: isoformat_def jan_1_2024_9am_def zfill_def str_nat.simps digit_chars)

text \<open>
  C10: in the document written by \<open>export_calendar\<close>, \<open>total_campaigns\<close> is the length
  of the calendar's event list, and \<open>events\<close> is the array of the events of the list in
  insertion order, each one as the object of its seven fields: the six strings and the
  metrics with their values. So \<open>total_campaigns\<close> counts occurrences: after one
  campaign was scheduled on N platforms in an empty calendar it is 7N for \<open>daily\<close>, 4N
  for \<open>weekly\<close> and N for \<open>once\<close>, not 1.
\<close>

theorem export_calendar_total:
  "json_get (snd (snd (export_calendar now c filename))) ''total_campaigns'' =
     Some (JInt (int (length (events c))))
   \<and> json_get (snd (snd (export_calendar now c filename))) ''events'' =
     Some (JArray (map (\<lambda>r.
        JObject [(''campaign_id'', JString (campaign_id (heap c ! r))),
                 (''platform'', JString (platform (heap c ! r))),
                 (''title'', JString (title (heap c ! r))),
                 (''content'', JString (content (heap c ! r))),
                 (''scheduled_time'', JString (scheduled_time (heap c ! r))),
                 (''status'', JString (status (heap c ! r))),
                 (''performance_metrics'',
                    JObject (map (\<lambda>(k, v). (k, JInt v)) (performance_metrics (heap c ! r))))])
        (events c)))
   \<and> fst (snd (export_calendar now c filename)) = filename
   \<and> (fromisoformat rt start_date = Some start \<longrightarrow>
        (freq = ''once'' \<or> 0 < toordinal start \<and> toordinal start + horizon freq \<le> max_ordinal) \<longrightarrow>
        json_get (snd (snd (export_calendar now
            (fst (schedule_campaign_across_platforms rt empty_calendar cid t ps cmap start_date
               freq)) filename))) ''total_campaigns'' =
          Some (JInt (int (per_platform freq * length ps))))"
proof -
  have "fromisoformat rt start_date = Some start \<Longrightarrow>
      freq = ''once'' \<or> 0 < toordinal start \<and> toordinal start + horizon freq \<le> max_ordinal \<Longrightarrow>
      length (events (fst (schedule_campaign_across_platforms rt empty_calendar cid t ps cmap
        start_date freq))) = per_platform freq * length ps"
    by (simp add: schedule_campaign_result appended_def empty_calendar_def
        length_concat_occurrences)
  then show ?thesis
    by (simp add: export_calendar_def asdict_def Let_def)
qed

lemma once_calendar:
  "fst (schedule_campaign_across_platforms cpython_basic empty_calendar ''c'' ''Launch''
         [''LinkedIn'', ''Twitter''] (map_of [(''LinkedIn'', ''Hello'')]) ''2024-01-01T09:00:00''
         ''once'') =
     \<lparr>heap = [new_event ''c'' ''LinkedIn'' ''Launch'' ''Hello'' ''2024-01-01T09:00:00'',
              new_event ''c'' ''Twitter'' ''Launch'' [] ''2024-01-01T09:00:00''],
      events = [0, 1],
      stdout = [added_line (new_event ''c'' ''LinkedIn'' ''Launch'' ''Hello'' ''2024-01-01T09:00:00''),
                added_line (new_event ''c'' ''Twitter'' ''Launch'' [] ''2024-01-01T09:00:00'')]\<rparr>"
  by (simp add: schedule_campaign_result [OF parse_jan_1 jan_1_in_range] appended_def
      empty_calendar_def occurrences_def content_for_def isoformat_jan_1)

theorem export_calendar_total_witness:
  "json_get (snd (snd (export_calendar jan_1_2024_9am
      (fst (schedule_campaign_across_platforms cpython_basic empty_calendar ''c'' ''Launch''
         [''LinkedIn'', ''Twitter''] (map_of [(''LinkedIn'', ''Hello'')]) ''2024-01-01T09:00:00''
         ''daily'')) ''calendar.json''))) ''total_campaigns'' = Some (JInt 14)
   \<and> json_get (snd (snd (export_calendar jan_1_2024_9am
      (execute_event cpython_basic
        (fst (schedule_campaign_across_platforms cpython_basic empty_calendar ''c'' ''Launch''
           [''LinkedIn'', ''Twitter''] (map_of [(''LinkedIn'', ''Hello'')]) ''2024-01-01T09:00:00''
           ''once'')) 1) ''calendar.json''))) ''events'' =
     Some (JArray
       [JObject [(''campaign_id'', JString ''c''), (''platform'', JString ''LinkedIn''),
                 (''title'', JString ''Launch''), (''content'', JString ''Hello''),
                 (''scheduled_time'', JString ''2024-01-01T09:00:00''),
                 (''status'', JString ''Scheduled''), (''performance_metrics'', JObject [])],
        JObject [(''campaign_id'', JString ''c''), (''platform'', JString ''Twitter''),
                 (''title'', JString ''Launch''), (''content'', JString ''''),
                 (''scheduled_time'', JString ''2024-01-01T09:00:00''),
                 (''status'', JString ''Executed''),
                 (''performance_metrics'',
                    JObject [(''reach'', JInt 14031), (''engagement'', JInt 281),
                             (''clicks'', JInt 81), (''conversions'', JInt 36)])]])"
proof -
  have 1: "json_get (snd (snd (export_calendar jan_1_2024_9am
      (fst (schedule_campaign_across_platforms cpython_basic empty_calendar ''c'' ''Launch''
         [''LinkedIn'', ''Twitter''] (map_of [(''LinkedIn'', ''Hello'')]) ''2024-01-01T09:00:00''
         ''daily'')) ''calendar.json''))) ''total_campaigns'' = Some (JInt 14)"
    using export_calendar_total [of jan_1_2024_9am empty_calendar "''calendar.json''"
        cpython_basic "''2024-01-01T09:00:00''" jan_1_2024_9am "''daily''" "''c''" "''Launch''"
        "[''LinkedIn'', ''Twitter'']" "map_of [(''LinkedIn'', ''Hello'')]",
        THEN conjunct2, THEN conjunct2, THEN conjunct2, rule_format,
        OF parse_jan_1 jan_1_in_range]
    by (simp add: per_platform_def)
  have h: "hash cpython_basic ''c'' = - 969"
    by (simp add: cpython_basic_def sample_hash_def)
  have 2: "execute_event cpython_basic
      (fst (schedule_campaign_across_platforms cpython_basic empty_calendar ''c'' ''Launch''
         [''LinkedIn'', ''Twitter''] (map_of [(''LinkedIn'', ''Hello'')])
         ''2024-01-01T09:00:00'' ''once'')) 1 =
     \<lparr>heap = [new_event ''c'' ''LinkedIn'' ''Launch'' ''Hello'' ''2024-01-01T09:00:00'',
              (new_event ''c'' ''Twitter'' ''Launch'' [] ''2024-01-01T09:00:00'')
                \<lparr>status := ''Executed'',
                 performance_metrics := [(''reach'', 14031), (''engagement'', 281),
                   (''clicks'', 81), (''conversions'', 36)]\<rparr>],
      events = [0, 1],
      stdout = [added_line (new_event ''c'' ''LinkedIn'' ''Launch'' ''Hello'' ''2024-01-01T09:00:00''),
                added_line (new_event ''c'' ''Twitter'' ''Launch'' [] ''2024-01-01T09:00:00''),
                check_mark @ '' Executed Twitter campaign: Launch'']\<rparr>"
    unfolding once_calendar
    by (simp add: execute_event_def execute_metrics_def h new_event_def Let_def)
  show ?thesis
    using 1 export_calendar_total [of jan_1_2024_9am
        "execute_event cpython_basic
          (fst (schedule_campaign_across_platforms cpython_basic empty_calendar ''c'' ''Launch''
             [''LinkedIn'', ''Twitter''] (map_of [(''LinkedIn'', ''Hello'')])
             ''2024-01-01T09:00:00'' ''once'')) 1" "''calendar.json''", THEN conjunct2,
        THEN conjunct1]
    unfolding 2 by (simp add: new_event_def)
qed

section \<open>Analytics of an empty history\<close>

text \<open>
  C5: when the history has no record of a platform, \<open>get_platform_analytics\<close> returns
  exactly the dict with the platform, \<open>posts: 0\<close> and \<open>total_reach: 0\<close>; on an empty
  history \<open>get_all_analytics\<close> has one such entry for every configured platform, five for
  the built-in configuration. Both functions are total.
\<close>

theorem analytics_of_empty_history:
  "(filter (\<lambda>x. post_platform x = p) (executed_campaigns s) = [] \<longrightarrow>
      get_platform_analytics s p =
        no_keys\<lparr>for_platform := Some p, posts := Some 0, total_reach := Some 0\<rparr>)
   \<and> (executed_campaigns s = [] \<longrightarrow>
      get_all_analytics s =
        map (\<lambda>p. (p, no_keys\<lparr>for_platform := Some p, posts := Some 0, total_reach := Some 0\<rparr>))
          (map fst (platform_configs s)))
   \<and> map fst (get_all_analytics new_simulator) =
        [''LinkedIn'', ''Twitter'', ''Instagram'', ''Facebook'', ''TikTok'']
   \<and> length (get_all_analytics new_simulator) = 5"
  by (simp add: get_platform_analytics_def get_all_analytics_def new_simulator_def
      initialize_platforms_def)

theorem analytics_of_empty_history_witness:
  "get_platform_analytics
     (fst (post_to_platform new_simulator sample_post_env ''Twitter'' ''Hi''
        ''2024-01-01T09:00:00'')) ''LinkedIn'' =
     no_keys\<lparr>for_platform := Some ''LinkedIn'', posts := Some 0, total_reach := Some 0\<rparr>
   \<and> get_all_analytics new_simulator =
     map (\<lambda>p. (p, no_keys\<lparr>for_platform := Some p, posts := Some 0, total_reach := Some 0\<rparr>))
       [''LinkedIn'', ''Twitter'', ''Instagram'', ''Facebook'', ''TikTok'']"
  using analytics_of_empty_history [of "''LinkedIn''"
      "fst (post_to_platform new_simulator sample_post_env ''Twitter'' ''Hi''
        ''2024-01-01T09:00:00'')"]
    analytics_of_empty_history [of "''LinkedIn''" new_simulator]
  by (simp add: post_to_platform_def new_simulator_def initialize_platforms_def Let_def)

section \<open>Executing a campaign\<close>

lemma execute_loop_posts:
  "execute_loop env cid cmap st ps (ex, acc) = (ex', acc') \<Longrightarrow>
   map post_platform acc' = map post_platform acc @ filter (\<lambda>p. content_for cmap p \<noteq> []) ps
   \<and> map log_platform (execution_log ex') =
       map log_platform (execution_log ex) @ filter (\<lambda>p. content_for cmap p \<noteq> []) ps
   \<and> (\<exists>new. acc' = acc @ new \<and>
        executed_campaigns (sim ex') = executed_campaigns (sim ex) @ new \<and>
        length (execution_log ex') = length (execution_log ex) + length new)"
proof (induction ps arbitrary: ex acc)
  case Nil
  then show ?case by simp
next
  case (Cons p ps)
  show ?case
  proof (cases "content_for cmap p = []")
    case True
    then show ?thesis using Cons by simp
  next
    case False
    obtain s' r where post:
      "post_to_platform (sim ex) (post_envs env (length acc)) p (content_for cmap p) st = (s', r)"
      by (cases "post_to_platform (sim ex) (post_envs env (length acc)) p (content_for cmap p) st")
    then have r: "post_platform r = p"
      and s': "executed_campaigns s' = executed_campaigns (sim ex) @ [r]"
      by (auto simp: post_to_platform_def Let_def)
    let ?ex = "ex\<lparr>sim := s', execution_log := execution_log ex @
        [\<lparr>log_campaign_id = cid, log_platform = p,
          execution_time = isoformat (now_logged env (length acc)),
          log_status = ''executed''\<rparr>]\<rparr>"
    have "execute_loop env cid cmap st ps (?ex, acc @ [r]) = (ex', acc')"
      using Cons.prems False post by (simp add: Let_def)
    from Cons.IH [OF this] show ?thesis
      using False r s' by auto
  qed
qed

text \<open>
  C7: the result of \<open>execute_campaign\<close> holds one post for every listed platform whose
  mapped content is non-empty, in list order, and one log entry is appended for each of
  them; a platform that is missing from the mapping or mapped to the empty string is
  passed over. The function has no error result.
\<close>

theorem execute_campaign_posts:
  "map post_platform (result_posts (snd (execute_campaign ex env cid ps cmap start_time))) =
     filter (\<lambda>p. content_for cmap p \<noteq> []) ps
   \<and> map log_platform (execution_log (fst (execute_campaign ex env cid ps cmap start_time))) =
     map log_platform (execution_log ex) @ filter (\<lambda>p. content_for cmap p \<noteq> []) ps
   \<and> length (execution_log (fst (execute_campaign ex env cid ps cmap start_time))) =
     length (execution_log ex) + length (filter (\<lambda>p. content_for cmap p \<noteq> []) ps)
   \<and> executed_campaigns (sim (fst (execute_campaign ex env cid ps cmap start_time))) =
     executed_campaigns (sim ex) @
     result_posts (snd (execute_campaign ex env cid ps cmap start_time))
   \<and> platforms_targeted (snd (execute_campaign ex env cid ps cmap start_time)) = ps"
proof -
  let ?st = "case start_time of None \<Rightarrow> isoformat (now_default env) | Some s \<Rightarrow> s"
  obtain ex' acc' where loop: "execute_loop env cid cmap ?st ps (ex, []) = (ex', acc')"
    by (cases "execute_loop env cid cmap ?st ps (ex, [])")
  have R: "execute_campaign ex env cid ps cmap start_time =
      (ex', \<lparr>result_campaign_id = cid, started_at = isoformat (now_started env),
             platforms_targeted = ps, result_posts = acc'\<rparr>)"
    using loop by (simp add: execute_campaign_def Let_def)
  from execute_loop_posts [OF loop] have
    a: "map post_platform acc' = filter (\<lambda>p. content_for cmap p \<noteq> []) ps" and
    b: "map log_platform (execution_log ex') =
       map log_platform (execution_log ex) @ filter (\<lambda>p. content_for cmap p \<noteq> []) ps" and
    c: "executed_campaigns (sim ex') = executed_campaigns (sim ex) @ acc'"
    by auto
  have d: "length (execution_log ex') =
      length (execution_log ex) + length (filter (\<lambda>p. content_for cmap p \<noteq> []) ps)"
    using arg_cong [OF b, of length] by simp
  show ?thesis using a b c d by (simp add: R)
qed

theorem execute_campaign_posts_witness:
  "map post_platform (result_posts (snd (execute_campaign new_executor sample_campaign_env
      ''camp_1'' [''LinkedIn'', ''Twitter'', ''Instagram'']
      (map_of [(''LinkedIn'', ''Hello''), (''Twitter'', [])]) None))) = [''LinkedIn'']"
  using execute_campaign_posts [of new_executor sample_campaign_env "''camp_1''"
      "[''LinkedIn'', ''Twitter'', ''Instagram'']"
      "map_of [(''LinkedIn'', ''Hello''), (''Twitter'', [])]" None]
  by (simp add: content_for_def)

section \<open>Scheduling an unknown campaign\<close>

text \<open>
  C8: for a campaign id that is not in the registry, \<open>schedule_campaigns\<close> returns the
  empty list, prints the warning and raises nothing; the event list and the event
  objects of the calendar and the registry are as before.
\<close>

theorem schedule_unknown_campaign:
  assumes "campaigns orc cid = None"
  shows "snd (schedule_campaigns rt orc cid freq) = Inr []
    \<and> events (calendar (fst (schedule_campaigns rt orc cid freq))) = events (calendar orc)
    \<and> heap (calendar (fst (schedule_campaigns rt orc cid freq))) = heap (calendar orc)
    \<and> stdout (calendar (fst (schedule_campaigns rt orc cid freq))) =
        stdout (calendar orc) @ [cross_mark @ '' Campaign '' @ cid @ '' not found'']
    \<and> campaigns (fst (schedule_campaigns rt orc cid freq)) = campaigns orc"
  using assms by (simp add: schedule_campaigns_def print_line_def)

theorem schedule_unknown_campaign_witness:
  "snd (schedule_campaigns cpython_basic sample_orchestrator ''camp_2'' ''daily'') = Inr []
   \<and> events (calendar (fst (schedule_campaigns cpython_basic sample_orchestrator ''camp_2''
        ''daily''))) = []"
proof -
  have "campaigns sample_orchestrator ''camp_2'' = None"
    by (simp add: sample_orchestrator_def)
  from schedule_unknown_campaign [OF this, of cpython_basic "''daily''"]
  show ?thesis by (simp add: sample_orchestrator_def empty_calendar_def)
qed

section \<open>The conversion-rate line of the report\<close>

lemma not_prefix_dashes: "\<not> prefix (CHR '' '' # s) (replicate n CHR ''-'' @ t @ u) \<or> n = 0"
  by (cases n) simp_all

lemma concat_concat_map: "concat (concat (map f xs)) = concat (map (\<lambda>x. concat (f x)) xs)"
  by (induction xs) simp_all

text \<open>
  C9: in the report, the pieces of a platform whose \<open>total_clicks\<close> is 0 (or absent, or
  negative) contain the CTR line and no conversion-rate line; for \<open>total_clicks > 0\<close>
  the conversion-rate line is the last piece of the platform. The report text is the
  header, the pieces of the platforms in the order of the mapping, and the summary.
\<close>

theorem report_conversion_rate_line:
  "generate_performance_report now an =
     concat (report_header now) @
     concat (map (\<lambda>(p, d). concat (platform_section p d)) an) @
     concat (report_summary an)
   \<and> ctr_piece d \<in> set (platform_section p d)
   \<and> (getd (total_clicks d) 0 \<le> 0 \<longrightarrow>
        length (platform_section p d) = 9 \<and>
        list_all (\<lambda>l. \<not> prefix ''  Conv. Rate:'' l) (platform_section p d))
   \<and> (0 < getd (total_clicks d) 0 \<longrightarrow>
        length (platform_section p d) = 10 \<and>
        last (platform_section p d) = conversion_rate_piece d \<and>
        prefix ''  Conv. Rate:'' (conversion_rate_piece d))
   \<and> (getd (ctr d) (PyInt 0) = PyInt 0 \<longrightarrow>
        ctr_piece d = ''  CTR:               0.00%'' @ newline)"
proof -
  have 1: "generate_performance_report now an =
     concat (report_header now) @
     concat (map (\<lambda>(p, d). concat (platform_section p d)) an) @
     concat (report_summary an)"
    by (simp add: generate_performance_report_def report_pieces_def concat_concat_map
        case_prod_unfold)
  have 2: "ctr_piece d \<in> set (platform_section p d)"
    by (simp add: platform_section_def)
  have 3: "getd (total_clicks d) 0 \<le> 0 \<Longrightarrow>
        length (platform_section p d) = 9 \<and>
        list_all (\<lambda>l. \<not> prefix ''  Conv. Rate:'' l) (platform_section p d)"
    using not_prefix_dashes [of "'' Conv. Rate:''" 40 newline "[]"]
    by (simp add: platform_section_def newline_def ctr_piece_def)
  have 4: "0 < getd (total_clicks d) 0 \<Longrightarrow>
        length (platform_section p d) = 10 \<and>
        last (platform_section p d) = conversion_rate_piece d \<and>
        prefix ''  Conv. Rate:'' (conversion_rate_piece d)"
    by (simp add: platform_section_def conversion_rate_piece_def)
  have "format_2f (PyInt 0) = ''0.00''"
    by code_simp
  then have 5: "getd (ctr d) (PyInt 0) = PyInt 0 \<Longrightarrow>
        ctr_piece d = ''  CTR:               0.00%'' @ newline"
    by (simp add: ctr_piece_def)
  show ?thesis using 1 2 3 4 5 by blast
qed

theorem report_conversion_rate_line_witness:
  "list_all (\<lambda>l. \<not> prefix ''  Conv. Rate:'' l)
     (platform_section ''LinkedIn'' (get_platform_analytics new_simulator ''LinkedIn''))
   \<and> ctr_piece (get_platform_analytics new_simulator ''LinkedIn'') =
      ''  CTR:               0.00%'' @ newline"
  using report_conversion_rate_line [of jan_1_2024_9am "[]"
      "get_platform_analytics new_simulator ''LinkedIn''" "''LinkedIn''"]
  by (simp add: get_platform_analytics_def new_simulator_def no_keys_def getd_def)

section \<open>The order of the listings\<close>








lemma append_le_same_length:
  fixes x y :: "'a::linorder list"
  assumes "length x = length y"
  shows "x @ u \<le> y @ v \<longleftrightarrow> x < y \<or> (x = y \<and> u \<le> v)"
  using assms by (induction x y rule: list_induct2) auto

lemma of_char_digit: "a < 10 \<Longrightarrow> of_char (digit_char a) = 48 + a"
  by (simp add: digit_char_def)

lemma digit_char_less: "a < 10 \<Longrightarrow> b < 10 \<Longrightarrow> digit_char a < digit_char b \<longleftrightarrow> a < b"
  by (simp add: less_char_def of_char_digit)

lemma digit_char_eq: "a < 10 \<Longrightarrow> b < 10 \<Longrightarrow> digit_char a = digit_char b \<longleftrightarrow> a = b"
proof
  assume "a < 10" "b < 10" "digit_char a = digit_char b"
  then have "(of_char (digit_char a) :: nat) = of_char (digit_char b)" by simp
  then show "a = b" using \<open>a < 10\<close> \<open>b < 10\<close> by (simp add: of_char_digit)
qed simp

lemma length_fixed_digits: "length (fixed_digits w n) = w"
  by (induction w arbitrary: n) simp_all

lemma div_10_less: "a < 10 ^ Suc w \<Longrightarrow> a div 10 < (10::nat) ^ w"
  by (simp add: less_mult_imp_div_less mult.commute)

lemma split_10:
  assumes "a div 10 = b div 10" "a mod 10 = b mod 10"
  shows "(a::nat) = b"
proof -
  have "a = 10 * (a div 10) + a mod 10" by simp
  also have "\<dots> = 10 * (b div 10) + b mod 10" using assms by simp
  also have "\<dots> = b" by simp
  finally show ?thesis .
qed

lemma less_10_aux:
  "ra < 10 \<Longrightarrow> rb < 10 \<Longrightarrow>
   (10 * qa + ra < 10 * qb + rb) = (qa < qb \<or> (qa = qb \<and> ra < (rb::nat)))"
  by arith

lemma less_10:
  "(a::nat) < b \<longleftrightarrow> a div 10 < b div 10 \<or> (a div 10 = b div 10 \<and> a mod 10 < b mod 10)"
proof -
  have "a < b \<longleftrightarrow> 10 * (a div 10) + a mod 10 < 10 * (b div 10) + b mod 10"
    by simp
  also have "\<dots> \<longleftrightarrow> a div 10 < b div 10 \<or> (a div 10 = b div 10 \<and> a mod 10 < b mod 10)"
    by (rule less_10_aux) simp_all
  finally show ?thesis .
qed

lemma fixed_digits_eq:
  "a < 10 ^ w \<Longrightarrow> b < 10 ^ w \<Longrightarrow> fixed_digits w a = fixed_digits w b \<longleftrightarrow> a = b"
proof (induction w arbitrary: a b)
  case 0
  then show ?case by simp
next
  case (Suc w)
  have "fixed_digits w (a div 10) = fixed_digits w (b div 10) \<longleftrightarrow> a div 10 = b div 10"
    using Suc.prems by (intro Suc.IH div_10_less)
  moreover have "digit_char (a mod 10) = digit_char (b mod 10) \<longleftrightarrow> a mod 10 = b mod 10"
    by (simp add: digit_char_eq)
  ultimately show ?case using split_10 [of a b] by auto
qed

lemma fixed_digits_less:
  "a < 10 ^ w \<Longrightarrow> b < 10 ^ w \<Longrightarrow> fixed_digits w a < fixed_digits w b \<longleftrightarrow> a < b"
proof (induction w arbitrary: a b)
  case 0
  then show ?case by simp
next
  case (Suc w)
  let ?fa = "fixed_digits w (a div 10)" and ?fb = "fixed_digits w (b div 10)"
  let ?da = "digit_char (a mod 10)" and ?db = "digit_char (b mod 10)"
  have r: "a div 10 < 10 ^ w" "b div 10 < 10 ^ w"
    using Suc.prems by (simp_all add: div_10_less)
  have le: "?fb @ [?db] \<le> ?fa @ [?da] \<longleftrightarrow> ?fb < ?fa \<or> (?fb = ?fa \<and> [?db] \<le> [?da])"
    by (rule append_le_same_length) (simp add: length_fixed_digits)
  have d: "[?db] \<le> [?da] \<longleftrightarrow> \<not> a mod 10 < b mod 10"
    using digit_char_less [of "a mod 10" "b mod 10"] by (auto simp: not_less)
  have "fixed_digits (Suc w) a < fixed_digits (Suc w) b \<longleftrightarrow> \<not> ?fb @ [?db] \<le> ?fa @ [?da]"
    by (simp add: not_le)
  also have "\<dots> \<longleftrightarrow> \<not> (b div 10 < a div 10 \<or> (b div 10 = a div 10 \<and> \<not> a mod 10 < b mod 10))"
    unfolding le d using Suc.IH [OF r(2) r(1)] fixed_digits_eq [OF r(2) r(1)] by simp
  also have "\<dots> \<longleftrightarrow> a < b"
    unfolding less_10 [of a b] by auto
  finally show ?case .
qed












lemma fraction_le:
  assumes "a < 10 ^ 6" "b < 10 ^ 6"
  shows "(if a \<noteq> 0 then CHR ''.'' # fixed_digits 6 a else []) \<le>
         (if b \<noteq> 0 then CHR ''.'' # fixed_digits 6 b else []) \<longleftrightarrow> a \<le> b"
  using fixed_digits_less [OF assms] fixed_digits_eq [OF assms]
  by (auto simp: le_less)























section \<open>The split of the engagements\<close>

lemma int_div_ge: "0 < c \<Longrightarrow> n * c \<le> a \<Longrightarrow> n \<le> a div (c::int)"
proof -
  assume c: "0 < c" and le: "n * c \<le> a"
  have e: "a = a div c * c + a mod c" by simp
  have m: "a mod c < c" using c by simp
  have "n * c < a div c * c + c" using le e m by linarith
  then have "n * c < (a div c + 1) * c" by (simp add: algebra_simps)
  then have "n < a div c + 1"
    using c by (simp add: mult_less_cancel_right)
  then show ?thesis by simp
qed

lemma int_div_lt: "0 < c \<Longrightarrow> a < n * c \<Longrightarrow> a div (c::int) < n"
proof -
  assume c: "0 < c" and lt: "a < n * c"
  have "a = a div c * c + a mod c" by simp
  moreover have "0 \<le> a mod c" using c by simp
  ultimately have "a div c * c < n * c"
    using lt by linarith
  then show ?thesis
    using c by (simp add: mult_less_cancel_right)
qed

lemma ftrunc_nonneg: "0 \<le> m \<Longrightarrow> ftrunc (m, - int t) = m div 2 ^ t"
  by (cases "m = 0"; cases "t = 0") (simp_all add: ftrunc_def)

lemma fround_exact: "bitlen \<bar>m\<bar> \<le> 53 \<Longrightarrow> fround m e = (m, e)"
  by (simp add: fround_def)

lemma fround_rounded:
  assumes "0 \<le> P" "\<not> bitlen P \<le> 53"
  shows "\<exists>k q'. bitlen P = 53 + int k \<and> 0 < k \<and> fround P e = (q', e + int k) \<and>
           P div 2 ^ k \<le> q' \<and> q' \<le> P div 2 ^ k + 1 \<and>
           (q' = P div 2 ^ k + 1 \<longrightarrow> 0 < P mod 2 ^ k)"
proof -
  let ?k = "nat (bitlen P - 53)"
  have P: "0 < P" using assms by (cases "P = 0") auto
  have k: "bitlen P = 53 + int ?k" "0 < ?k" using assms(2) by simp_all
  let ?q = "P div 2 ^ ?k" and ?r = "P mod 2 ^ ?k"
  let ?q' = "if ?r < 2 ^ (?k - 1) \<or> (?r = 2 ^ (?k - 1) \<and> even ?q) then ?q else ?q + 1"
  have f: "fround P e = (?q', e + int ?k)"
    using P assms(2) by (simp add: fround_def Let_def)
  have "?q' = ?q + 1 \<longrightarrow> 0 < ?r"
  proof
    assume "?q' = ?q + 1"
    then have "\<not> ?r < 2 ^ (?k - 1)" by (auto split: if_splits)
    moreover have "0 < (2::int) ^ (?k - 1)" by simp
    ultimately show "0 < ?r" by linarith
  qed
  moreover have "?q \<le> ?q'" "?q' \<le> ?q + 1" by simp_all
  ultimately show ?thesis using k f by blast
qed

lemma trunc_round_bounds:
  assumes "0 \<le> P" "P < 2 ^ (p + 48)" "5 \<le> p"
  shows "16 * P \<le> (16 * n + 15) * 2 ^ p \<Longrightarrow> ftrunc (fround P (- int p)) \<le> n"
    and "n * 2 ^ p \<le> P \<Longrightarrow> n \<le> ftrunc (fround P (- int p))"
proof -
  have both: "(16 * P \<le> (16 * n + 15) * 2 ^ p \<longrightarrow> ftrunc (fround P (- int p)) \<le> n) \<and>
      (n * 2 ^ p \<le> P \<longrightarrow> n \<le> ftrunc (fround P (- int p)))"
  proof (cases "bitlen P \<le> 53")
    case True
    then have t: "ftrunc (fround P (- int p)) = P div 2 ^ p"
      using assms(1) by (simp add: fround_exact ftrunc_nonneg)
    have "16 * P \<le> (16 * n + 15) * 2 ^ p \<Longrightarrow> P div 2 ^ p < n + 1"
    proof (rule int_div_lt)
      assume "16 * P \<le> (16 * n + 15) * 2 ^ p"
      moreover have "(16 * n + 15) * 2 ^ p < 16 * ((n + 1) * (2::int) ^ p)"
        by (simp add: algebra_simps)
      ultimately show "P < (n + 1) * 2 ^ p" by linarith
    qed simp
    moreover have "n * 2 ^ p \<le> P \<Longrightarrow> n \<le> P div 2 ^ p"
      by (rule int_div_ge) simp_all
    ultimately show ?thesis unfolding t by auto
  next
    case False
    from fround_rounded [OF assms(1) False, of "- int p"] obtain k q' where
      k: "bitlen P = 53 + int k" "0 < k" and
      f: "fround P (- int p) = (q', - int p + int k)" and
      q: "P div 2 ^ k \<le> q'" "q' \<le> P div 2 ^ k + 1" "q' = P div 2 ^ k + 1 \<longrightarrow> 0 < P mod 2 ^ k"
      by blast
    have P: "0 < P" using assms(1) False by (cases "P = 0") auto
    have "(2::int) ^ nat (bitlen P - 1) \<le> P"
      using bitlen_bounds [OF P] by simp
    then have "(2::int) ^ (52 + k) \<le> P"
      using k(1) by (simp add: nat_add_distrib)
    then have "(2::int) ^ (52 + k) < 2 ^ (p + 48)"
      using assms(2) by linarith
    then have kp: "k + 5 \<le> p" by simp
    define t where "t = p - k"
    define T where "T = (2::int) ^ (t - 4)"
    have tp: "p = t + k" "4 \<le> t" using kp by (simp_all add: t_def)
    have "(2::int) ^ t = 2 ^ (4 + (t - 4))" using tp(2) by simp
    also have "\<dots> = 2 ^ 4 * T" unfolding T_def by (rule power_add)
    finally have T: "0 < T" "(2::int) ^ t = 16 * T"
      by (simp_all add: T_def)
    have pw: "(2::int) ^ p = 16 * T * 2 ^ k"
      by (simp add: tp(1) power_add T(2))
    let ?q = "P div 2 ^ k" and ?r = "P mod 2 ^ k"
    have dm: "P = ?q * 2 ^ k + ?r" by (rule div_mult_mod_eq [symmetric])
    have r: "0 \<le> ?r" "?r < 2 ^ k" by simp_all
    have q0: "0 \<le> ?q" using P by (simp add: pos_imp_zdiv_nonneg_iff)
    have tr: "ftrunc (fround P (- int p)) = q' div 2 ^ t"
    proof -
      have "- int p + int k = - int t" using tp(1) by simp
      then show ?thesis using q(1) q0 by (simp add: f ftrunc_nonneg)
    qed
    have A: "16 * P \<le> (16 * n + 15) * 2 ^ p \<Longrightarrow> q' div 2 ^ t < n + 1"
    proof (rule int_div_lt)
      assume "16 * P \<le> (16 * n + 15) * 2 ^ p"
      then have h: "P \<le> (16 * n + 15) * T * 2 ^ k"
        by (simp add: pw algebra_simps)
      have "q' \<le> (16 * n + 15) * T"
      proof (cases "q' = ?q + 1")
        case True
        then have "?q * 2 ^ k < P" using q(3) dm by linarith
        then have "?q * 2 ^ k < (16 * n + 15) * T * 2 ^ k" using h by linarith
        then have "?q < (16 * n + 15) * T" by (simp add: mult_less_cancel_right)
        then show ?thesis using True by simp
      next
        case False
        then have "q' = ?q" using q(1,2) by linarith
        moreover have "?q * 2 ^ k \<le> (16 * n + 15) * T * 2 ^ k" using h dm r(1) by linarith
        then have "?q \<le> (16 * n + 15) * T" by (simp add: mult_le_cancel_right)
        ultimately show ?thesis by simp
      qed
      moreover have "(16 * n + 15) * T < (n + 1) * (16 * T)"
        using T(1) by (simp add: algebra_simps)
      ultimately show "q' < (n + 1) * 2 ^ t" by (simp add: T(2))
    qed simp
    have B: "n * 2 ^ p \<le> P \<Longrightarrow> n \<le> q' div 2 ^ t"
    proof (rule int_div_ge)
      assume "n * 2 ^ p \<le> P"
      then have "n * 2 ^ t * 2 ^ k \<le> P" by (simp add: tp(1) power_add algebra_simps)
      also have "P < ?q * 2 ^ k + 2 ^ k" using dm r(2) by linarith
      also have "\<dots> = (?q + 1) * 2 ^ k" by (simp add: algebra_simps)
      finally have "n * 2 ^ t < ?q + 1" by (simp add: mult_less_cancel_right)
      then show "n * 2 ^ t \<le> q'" using q(1) by linarith
    qed simp
    show ?thesis unfolding tr using A B by auto
  qed
  from both show "16 * P \<le> (16 * n + 15) * 2 ^ p \<Longrightarrow> ftrunc (fround P (- int p)) \<le> n"
    and "n * 2 ^ p \<le> P \<Longrightarrow> n \<le> ftrunc (fround P (- int p))"
    by simp_all
qed


lemma div10_bounds: "10 * (a div 10) \<le> (a::int) \<and> a \<le> 10 * (a div 10) + 9"
proof -
  have "a = a div 10 * 10 + a mod 10" by (rule div_mult_mod_eq [symmetric])
  moreover have "0 \<le> a mod 10" "a mod 10 < 10" by simp_all
  ultimately show ?thesis by linarith
qed

lemma literals:
  "nearest 7 10 = (6305039478318694, - 53)"
  "nearest 2 10 = (7205759403792794, - 55)"
  "nearest 1 10 = (7205759403792794, - 56)"
  by code_simp+

lemma float_of_small_int: "0 \<le> n \<Longrightarrow> n < 2 ^ 53 \<Longrightarrow> float_of_int n = (n, 0)"
  by (simp add: float_of_int_def fround_exact bitlen_le_iff_power)

lemma share_of_engagements:
  assumes "0 \<le> n" "n < 2 ^ 40" "0 < m" "m < 2 ^ 53" "45 \<le> p"
  shows "16 * (n * m) \<le> (16 * k + 15) * 2 ^ p \<Longrightarrow>
           ftrunc (fmul (float_of_int n) (m, - int p)) \<le> k"
    and "k * 2 ^ p \<le> n * m \<Longrightarrow> k \<le> ftrunc (fmul (float_of_int n) (m, - int p))"
proof -
  have f: "float_of_int n = (n, 0)"
    using assms(1,2) by (intro float_of_small_int) simp_all
  have "n * m \<le> 2 ^ 40 * m"
    using assms(2,3) by (simp add: mult_right_mono)
  also have "\<dots> < 2 ^ 40 * 2 ^ 53"
    using assms(4) by simp
  also have "\<dots> = (2::int) ^ 93"
    by simp
  also have "\<dots> \<le> (2::int) ^ (p + 48)"
    using assms(5) by (intro power_increasing) simp_all
  finally have b: "n * m < 2 ^ (p + 48)" .
  have p5: "5 \<le> p" using assms(5) by simp
  have nn: "0 \<le> n * m" using assms(1,3) by simp
  show "16 * (n * m) \<le> (16 * k + 15) * 2 ^ p \<Longrightarrow>
           ftrunc (fmul (float_of_int n) (m, - int p)) \<le> k"
    using trunc_round_bounds(1) [OF nn b p5, of k] by (simp add: fmul_def f)
  show "k * 2 ^ p \<le> n * m \<Longrightarrow> k \<le> ftrunc (fmul (float_of_int n) (m, - int p))"
    using trunc_round_bounds(2) [OF nn b p5, of k] by (simp add: fmul_def f)
qed

lemma engagement_split:
  assumes "0 \<le> n" "n < 2 ^ 40"
  shows "n - 2 \<le> ftrunc (fmul (float_of_int n) (nearest 7 10)) +
                  ftrunc (fmul (float_of_int n) (nearest 2 10)) +
                  ftrunc (fmul (float_of_int n) (nearest 1 10))
       \<and> ftrunc (fmul (float_of_int n) (nearest 7 10)) +
                  ftrunc (fmul (float_of_int n) (nearest 2 10)) +
                  ftrunc (fmul (float_of_int n) (nearest 1 10)) \<le> n"
proof -
  define l where "l = ftrunc (fmul (float_of_int n) (6305039478318694, - int 53))"
  define c where "c = ftrunc (fmul (float_of_int n) (7205759403792794, - int 55))"
  define s where "s = ftrunc (fmul (float_of_int n) (7205759403792794, - int 56))"
  define a7 where "a7 = (7 * n) div 10"
  define b7 where "b7 = (7 * n - 1) div 10"
  define a2 where "a2 = (2 * n) div 10"
  define a1 where "a1 = n div 10"
  have d7: "10 * a7 \<le> 7 * n" "7 * n \<le> 10 * a7 + 9"
    using div10_bounds [of "7 * n"] by (simp_all add: a7_def)
  have e7: "10 * b7 \<le> 7 * n - 1" "7 * n - 1 \<le> 10 * b7 + 9"
    using div10_bounds [of "7 * n - 1"] by (simp_all add: b7_def)
  have d2: "10 * a2 \<le> 2 * n" "2 * n \<le> 10 * a2 + 9"
    using div10_bounds [of "2 * n"] by (simp_all add: a2_def)
  have d1: "10 * a1 \<le> n" "n \<le> 10 * a1 + 9"
    using div10_bounds [of n] by (simp_all add: a1_def)
  have n: "n < 1099511627776" using assms(2) by simp
  have l_hi: "l \<le> a7"
    unfolding l_def by (rule share_of_engagements(1) [OF assms]) (use d7 assms(1) in simp_all)
  have l_lo: "b7 \<le> l"
    unfolding l_def by (rule share_of_engagements(2) [OF assms]) (use e7 n in simp_all)
  have c_hi: "c \<le> a2"
    unfolding c_def by (rule share_of_engagements(1) [OF assms]) (use d2 n in simp_all)
  have c_lo: "a2 \<le> c"
    unfolding c_def by (rule share_of_engagements(2) [OF assms]) (use d2 assms(1) in simp_all)
  have s_hi: "s \<le> a1"
    unfolding s_def by (rule share_of_engagements(1) [OF assms]) (use d1 n in simp_all)
  have s_lo: "a1 \<le> s"
    unfolding s_def by (rule share_of_engagements(2) [OF assms]) (use d1 assms(1) in simp_all)
  have "l + c + s \<le> a7 + a2 + a1"
    using l_hi c_hi s_hi by simp
  moreover have "10 * (a7 + a2 + a1) \<le> 10 * n"
    using d7(1) d2(1) d1(1) by simp
  ultimately have hi: "l + c + s \<le> n"
    by simp
  have "b7 + a2 + a1 \<le> l + c + s"
    using l_lo c_lo s_lo by simp
  moreover have "10 * n - 28 \<le> 10 * (b7 + a2 + a1)"
    using e7(2) d2(2) d1(2) by simp
  ultimately have lo: "n - 2 \<le> l + c + s"
    by simp
  have "n - 2 \<le> l + c + s \<and> l + c + s \<le> n"
    using hi lo by simp
  then show ?thesis by (simp add: literals l_def c_def s_def)
qed


lemma fvalue_powi: "fvalue d = of_int (fst d) * 2 powi snd d"
proof (cases "0 \<le> snd d")
  case True
  then show ?thesis by (simp add: fvalue_def power_int_def)
next
  case False
  then have "(2::rat) powi snd d = inverse (2 ^ nat (- snd d))"
    by (simp add: power_int_def power_one_over inverse_eq_divide)
  then show ?thesis using False by (simp add: fvalue_def divide_inverse)
qed

lemma fround_sign: "0 \<le> m \<Longrightarrow> 0 \<le> fst (fround m e)"
proof (cases "bitlen m \<le> 53")
  case True
  assume "0 \<le> m"
  then show ?thesis using True by (simp add: fround_exact)
next
  case False
  assume m: "0 \<le> m"
  from fround_rounded [OF m False, of e] obtain k q' where
    "fround m e = (q', e + int k)" "m div 2 ^ k \<le> q'"
    by blast
  moreover have "0 \<le> m div 2 ^ k" using m by (simp add: pos_imp_zdiv_nonneg_iff)
  ultimately show ?thesis by simp
qed

lemma fround_double: "0 \<le> m \<Longrightarrow> fvalue (fround m e) \<le> 2 * fvalue (m, e)"
proof (cases "bitlen m \<le> 53")
  case True
  assume "0 \<le> m"
  then show ?thesis using True by (simp add: fround_exact fvalue_powi)
next
  case False
  assume m: "0 \<le> m"
  from fround_rounded [OF m False, of e] obtain k q' where
    k: "bitlen m = 53 + int k" and f: "fround m e = (q', e + int k)" and
    q: "q' \<le> m div 2 ^ k + 1"
    by blast
  have P: "0 < m" using m False by (cases "m = 0") auto
  have "(2::int) ^ nat (bitlen m - 1) \<le> m"
    using bitlen_bounds [OF P] by simp
  then have "(2::int) ^ (52 + k) \<le> m"
    using k by (simp add: nat_add_distrib)
  then have "2 ^ 52 * 2 ^ k \<le> m" by (simp add: power_add)
  moreover have "(2::int) ^ k \<le> 2 ^ 52 * 2 ^ k" by simp
  ultimately have "1 * (2::int) ^ k \<le> m" by linarith
  then have "1 \<le> m div 2 ^ k" by (intro int_div_ge) simp_all
  then have "q' \<le> 2 * (m div 2 ^ k)" using q by linarith
  then have "q' * 2 ^ k \<le> 2 * (m div 2 ^ k) * 2 ^ k" by (simp add: mult_right_mono)
  then have "q' * 2 ^ k \<le> 2 * (m div 2 ^ k * 2 ^ k)" by simp
  moreover have "0 \<le> m mod 2 ^ k" by simp
  ultimately have i: "q' * 2 ^ k \<le> 2 * m"
    using div_mult_mod_eq [of m "2 ^ k"] by linarith
  have "fvalue (fround m e) = of_int (q' * 2 ^ k) * 2 powi e"
    by (simp add: f fvalue_powi power_int_add)
  also have "\<dots> \<le> of_int (2 * m) * 2 powi e"
    using i by (intro mult_right_mono) (simp_all only: of_int_le_iff, simp)
  finally show ?thesis by (simp add: fvalue_powi)
qed

lemma fmul_bound:
  assumes "0 \<le> fst a" "0 \<le> fst b" "fvalue a \<le> x" "fvalue b \<le> y"
  shows "0 \<le> fst (fmul a b) \<and> fvalue (fmul a b) \<le> 2 * (x * y)"
proof -
  have m: "0 \<le> fst a * fst b" using assms(1,2) by simp
  have a: "0 \<le> fvalue a" "0 \<le> fvalue b"
    using assms(1,2) by (simp_all add: fvalue_powi)
  have "fvalue (fst a * fst b, snd a + snd b) = fvalue a * fvalue b"
    by (simp add: fvalue_powi power_int_add)
  also have "\<dots> \<le> x * y"
    using a assms(3,4) by (intro mult_mono) simp_all
  finally show ?thesis
    using fround_double [OF m, of "snd a + snd b"] fround_sign [OF m, of "snd a + snd b"]
    by (simp add: fmul_def)
qed

lemma fadd_bound:
  assumes "0 \<le> fst a" "0 \<le> fst b" "fvalue a \<le> x" "fvalue b \<le> y"
  shows "0 \<le> fst (fadd a b) \<and> fvalue (fadd a b) \<le> 2 * (x + y)"
proof -
  define e where "e = min (snd a) (snd b)"
  let ?m = "fst a * 2 ^ nat (snd a - e) + fst b * 2 ^ nat (snd b - e)"
  have m: "0 \<le> ?m" using assms(1,2) by simp
  have pa: "(2::rat) ^ nat (snd a - e) * 2 powi e = 2 powi snd a"
  proof -
    have "(2::rat) ^ nat (snd a - e) = 2 powi (snd a - e)"
      by (simp add: e_def power_int_def)
    then show ?thesis by (simp add: power_int_add [symmetric])
  qed
  have pb: "(2::rat) ^ nat (snd b - e) * 2 powi e = 2 powi snd b"
  proof -
    have "(2::rat) ^ nat (snd b - e) = 2 powi (snd b - e)"
      by (simp add: e_def power_int_def)
    then show ?thesis by (simp add: power_int_add [symmetric])
  qed
  have "fvalue (?m, e) =
      of_int (fst a) * (2 ^ nat (snd a - e) * 2 powi e) +
      of_int (fst b) * (2 ^ nat (snd b - e) * 2 powi e)"
    by (simp add: fvalue_powi algebra_simps)
  also have "\<dots> = fvalue a + fvalue b"
    by (simp only: pa pb fvalue_powi)
  finally have "fvalue (?m, e) \<le> x + y" using assms(3,4) by simp
  then show ?thesis
    using fround_double [OF m, of e] fround_sign [OF m, of e]
    by (simp add: fadd_def e_def Let_def)
qed

lemma ftrunc_bound:
  assumes "0 \<le> fst d" "fvalue d \<le> of_int n"
  shows "0 \<le> ftrunc d \<and> ftrunc d \<le> n"
proof (cases "0 \<le> snd d")
  case True
  then have "of_int (ftrunc d) = fvalue d"
    by (simp add: ftrunc_def fvalue_def)
  then have "(of_int (ftrunc d) :: rat) \<le> of_int n" using assms(2) by simp
  then have "ftrunc d \<le> n" by (simp only: of_int_le_iff)
  moreover have "0 \<le> ftrunc d" using True assms(1) by (simp add: ftrunc_def)
  ultimately show ?thesis by simp
next
  case False
  let ?c = "(2::int) ^ nat (- snd d)"
  have t: "ftrunc d = fst d div ?c"
    using ftrunc_nonneg [OF assms(1), of "nat (- snd d)"] False by simp
  have "(of_int (fst d) :: rat) / of_int ?c \<le> of_int n"
    using assms(2) False by (simp add: fvalue_def)
  then have "of_int (fst d) \<le> (of_int (n * ?c) :: rat)"
    by (simp add: field_simps)
  then have "fst d \<le> n * ?c" by (simp only: of_int_le_iff)
  moreover have "0 < ?c" by simp
  ultimately have "fst d < n * ?c + ?c" by linarith
  then have "fst d < (n + 1) * ?c" by (simp add: algebra_simps)
  then have "fst d div ?c < n + 1" by (intro int_div_lt) simp_all
  moreover have "0 \<le> fst d div ?c" using assms(1) by (simp add: pos_imp_zdiv_nonneg_iff)
  ultimately show ?thesis by (simp add: t)
qed


lemma draw_bound: "is_draw d \<Longrightarrow> 0 \<le> fst d \<and> fvalue d \<le> 1"
  by (cases d) (simp add: is_draw_def fvalue_def)

lemma more_literals:
  "nearest 8 10 = (7205759403792794, - 53)"
  "nearest 4 10 = (7205759403792794, - 54)"
  "nearest 6 10 = (5404319552844595, - 53)"
  "nearest 3 100 = (8646911284551352, - 58)"
  by code_simp+

lemma rate_literals:
  "nearest 25 1000 = (7205759403792794, - 58)"
  "nearest 35 1000 = (5044031582654956, - 57)"
  "nearest 45 1000 = (6485183463413514, - 57)"
  "nearest 20 1000 = (5764607523034235, - 58)"
  "nearest 55 1000 = (7926335344172073, - 57)"
  by code_simp+

lemma literal_bounds:
  "0 \<le> fst (nearest 8 10) \<and> fvalue (nearest 8 10) \<le> 1"
  "0 \<le> fst (nearest 4 10) \<and> fvalue (nearest 4 10) \<le> 1"
  "0 \<le> fst (nearest 6 10) \<and> fvalue (nearest 6 10) \<le> 1"
  "0 \<le> fst (nearest 7 10) \<and> fvalue (nearest 7 10) \<le> 1"
  by (simp_all add: more_literals literals fvalue_def)

lemma float_of_int_bound:
  "0 \<le> n \<Longrightarrow> n \<le> b \<Longrightarrow> b < 2 ^ 53 \<Longrightarrow>
   0 \<le> fst (float_of_int n) \<and> fvalue (float_of_int n) \<le> of_int b"
  by (simp add: float_of_small_int fvalue_def)

lemma engagements_range:
  assumes "0 \<le> base" "base \<le> 30000" "0 \<le> fst rate" "fvalue rate \<le> 1"
    and "is_draw (draw1 env)" "is_draw (draw2 env)"
  shows "0 \<le> engagements (simulate_metrics base rate env) \<and>
         engagements (simulate_metrics base rate env) < 2 ^ 40"
proof -
  define v2 where "v2 = fadd (nearest 8 10) (fmul (draw1 env) (nearest 4 10))"
  define r where "r = ftrunc (fmul (float_of_int base) v2)"
  define v6 where "v6 = fadd (nearest 7 10) (fmul (draw2 env) (nearest 6 10))"
  define e where "e = ftrunc (fmul (fmul (float_of_int r) rate) v6)"
  have e_eq: "engagements (simulate_metrics base rate env) = e"
    by (simp add: simulate_metrics_def Let_def e_def r_def v2_def v6_def)
  note d1 = draw_bound [OF assms(5)] and d2 = draw_bound [OF assms(6)]
  have v1: "0 \<le> fst (fmul (draw1 env) (nearest 4 10)) \<and>
      fvalue (fmul (draw1 env) (nearest 4 10)) \<le> 2 * (1 * 1)"
    using d1 literal_bounds(2) by (intro fmul_bound) simp_all
  have v2: "0 \<le> fst v2 \<and> fvalue v2 \<le> 2 * (1 + 2)"
    unfolding v2_def using v1 literal_bounds(1) by (intro fadd_bound) simp_all
  have fb: "0 \<le> fst (float_of_int base) \<and> fvalue (float_of_int base) \<le> of_int 30000"
    using assms(1,2) by (intro float_of_int_bound) simp_all
  have v3: "0 \<le> fst (fmul (float_of_int base) v2) \<and>
      fvalue (fmul (float_of_int base) v2) \<le> 2 * (of_int 30000 * 6)"
    using fb v2 by (intro fmul_bound) simp_all
  then have "0 \<le> fst (fmul (float_of_int base) v2) \<and>
      fvalue (fmul (float_of_int base) v2) \<le> of_int 360000"
    by simp
  then have r: "0 \<le> r \<and> r \<le> 360000"
    unfolding r_def by (intro ftrunc_bound) simp_all
  have fr: "0 \<le> fst (float_of_int r) \<and> fvalue (float_of_int r) \<le> of_int 360000"
    using r by (intro float_of_int_bound) simp_all
  have v4: "0 \<le> fst (fmul (float_of_int r) rate) \<and>
      fvalue (fmul (float_of_int r) rate) \<le> 2 * (of_int 360000 * 1)"
    using fr assms(3,4) by (intro fmul_bound) simp_all
  have v5: "0 \<le> fst (fmul (draw2 env) (nearest 6 10)) \<and>
      fvalue (fmul (draw2 env) (nearest 6 10)) \<le> 2 * (1 * 1)"
    using d2 literal_bounds(3) by (intro fmul_bound) simp_all
  have v6: "0 \<le> fst v6 \<and> fvalue v6 \<le> 2 * (1 + 2)"
    unfolding v6_def using v5 literal_bounds(4) by (intro fadd_bound) simp_all
  have v7: "0 \<le> fst (fmul (fmul (float_of_int r) rate) v6) \<and>
      fvalue (fmul (fmul (float_of_int r) rate) v6) \<le> 2 * (720000 * 6)"
    using v4 v6 by (intro fmul_bound) simp_all
  then have "0 \<le> fst (fmul (fmul (float_of_int r) rate) v6) \<and>
      fvalue (fmul (fmul (float_of_int r) rate) v6) \<le> of_int 8640000"
    by simp
  then have "0 \<le> e \<and> e \<le> 8640000"
    unfolding e_def by (intro ftrunc_bound) simp_all
  then show ?thesis by (simp add: e_eq)
qed

lemma configured_profile:
  "0 \<le> (case map_of initialize_platforms p of None \<Rightarrow> 5000 | Some cf \<Rightarrow> base_reach cf)
   \<and> (case map_of initialize_platforms p of None \<Rightarrow> 5000 | Some cf \<Rightarrow> base_reach cf) \<le> 30000
   \<and> 0 \<le> fst (case map_of initialize_platforms p of
                   None \<Rightarrow> nearest 3 100 | Some cf \<Rightarrow> engagement_rate cf)
   \<and> fvalue (case map_of initialize_platforms p of
                   None \<Rightarrow> nearest 3 100 | Some cf \<Rightarrow> engagement_rate cf) \<le> 1"
  by (simp add: initialize_platforms_def rate_literals more_literals fvalue_def)

text \<open>
  C4, as amended: in every post record that \<open>post_to_platform\<close> makes with the built-in
  platform profiles, for any platform, content and random draws, \<open>likes\<close>, \<open>comments\<close>
  and \<open>shares\<close> are \<open>int(engagements * 0.7)\<close>, \<open>int(engagements * 0.2)\<close> and
  \<open>int(engagements * 0.1)\<close>, truncated and not rounded, and their sum is at most
  \<open>engagements\<close> and at least \<open>engagements - 2\<close>.
\<close>

theorem post_metrics_split:
  assumes "platform_configs s = initialize_platforms"
    and "is_draw (draw1 env)" "is_draw (draw2 env)"
  shows "likes (metrics (snd (post_to_platform s env p c st))) =
           ftrunc (fmul (float_of_int (engagements (metrics (snd (post_to_platform s env p c st)))))
             (nearest 7 10))
    \<and> comments (metrics (snd (post_to_platform s env p c st))) =
           ftrunc (fmul (float_of_int (engagements (metrics (snd (post_to_platform s env p c st)))))
             (nearest 2 10))
    \<and> shares (metrics (snd (post_to_platform s env p c st))) =
           ftrunc (fmul (float_of_int (engagements (metrics (snd (post_to_platform s env p c st)))))
             (nearest 1 10))
    \<and> engagements (metrics (snd (post_to_platform s env p c st))) - 2 \<le>
           likes (metrics (snd (post_to_platform s env p c st))) +
           comments (metrics (snd (post_to_platform s env p c st))) +
           shares (metrics (snd (post_to_platform s env p c st)))
    \<and> likes (metrics (snd (post_to_platform s env p c st))) +
           comments (metrics (snd (post_to_platform s env p c st))) +
           shares (metrics (snd (post_to_platform s env p c st))) \<le>
           engagements (metrics (snd (post_to_platform s env p c st)))"
proof -
  define base where
    "base = (case map_of initialize_platforms p of None \<Rightarrow> 5000 | Some cf \<Rightarrow> base_reach cf)"
  define rate where
    "rate = (case map_of initialize_platforms p of
               None \<Rightarrow> nearest 3 100 | Some cf \<Rightarrow> engagement_rate cf)"
  define n where "n = engagements (simulate_metrics base rate env)"
  have m: "metrics (snd (post_to_platform s env p c st)) = simulate_metrics base rate env"
    by (simp add: post_to_platform_def Let_def assms(1) base_def rate_def)
  have "0 \<le> n \<and> n < 2 ^ 40"
    unfolding n_def using configured_profile [of p] assms(2,3)
    by (intro engagements_range) (simp_all add: base_def rate_def)
  then have "n - 2 \<le> ftrunc (fmul (float_of_int n) (nearest 7 10)) +
                  ftrunc (fmul (float_of_int n) (nearest 2 10)) +
                  ftrunc (fmul (float_of_int n) (nearest 1 10))
       \<and> ftrunc (fmul (float_of_int n) (nearest 7 10)) +
                  ftrunc (fmul (float_of_int n) (nearest 2 10)) +
                  ftrunc (fmul (float_of_int n) (nearest 1 10)) \<le> n"
    by (intro engagement_split) simp_all
  moreover have
    "likes (simulate_metrics base rate env) = ftrunc (fmul (float_of_int n) (nearest 7 10))"
    "comments (simulate_metrics base rate env) = ftrunc (fmul (float_of_int n) (nearest 2 10))"
    "shares (simulate_metrics base rate env) = ftrunc (fmul (float_of_int n) (nearest 1 10))"
    by (simp_all add: simulate_metrics_def Let_def n_def)
  ultimately show ?thesis
    unfolding m n_def [symmetric] by simp
qed

lemma sample_draws: "is_draw (draw1 sample_post_env)" "is_draw (draw2 sample_post_env)"
  by (simp_all add: sample_post_env_def is_draw_def)

lemma sample_twitter:
  "simulate_metrics 15000 (nearest 35 1000) sample_post_env =
     \<lparr>reach = 12000, engagements = 313, likes = 219, comments = 62, shares = 31, clicks = 62,
      conversions = 1\<rparr>"
  by code_simp

lemma sample_linkedin:
  "simulate_metrics 10000 (nearest 25 1000) sample_post_env =
     \<lparr>reach = 8000, engagements = 149, likes = 104, comments = 29, shares = 14, clicks = 29,
      conversions = 0\<rparr>"
  by code_simp

theorem post_metrics_split_witness:
  "engagements (metrics (snd (post_to_platform new_simulator sample_post_env ''Twitter'' ''Hi''
      ''2024-01-01T09:00:00''))) = 313
   \<and> likes (metrics (snd (post_to_platform new_simulator sample_post_env ''Twitter'' ''Hi''
      ''2024-01-01T09:00:00''))) +
     comments (metrics (snd (post_to_platform new_simulator sample_post_env ''Twitter'' ''Hi''
      ''2024-01-01T09:00:00''))) +
     shares (metrics (snd (post_to_platform new_simulator sample_post_env ''Twitter'' ''Hi''
      ''2024-01-01T09:00:00''))) \<le> 313"
proof -
  have c: "platform_configs new_simulator = initialize_platforms"
    by (simp add: new_simulator_def)
  have "metrics (snd (post_to_platform new_simulator sample_post_env ''Twitter'' ''Hi''
      ''2024-01-01T09:00:00'')) = simulate_metrics 15000 (nearest 35 1000) sample_post_env"
    by (simp add: post_to_platform_def Let_def new_simulator_def initialize_platforms_def)
  then have "engagements (metrics (snd (post_to_platform new_simulator sample_post_env
      ''Twitter'' ''Hi'' ''2024-01-01T09:00:00''))) = 313"
    by (simp add: sample_twitter)
  then show ?thesis
    using post_metrics_split [OF c sample_draws, of "''Twitter''" "''Hi''"
        "''2024-01-01T09:00:00''"]
    by simp
qed

theorem post_metrics_split_counterexample:
  "metrics (snd (post_to_platform new_simulator sample_post_env ''LinkedIn'' ''Hello''
      ''2024-01-01T09:00:00'')) =
     \<lparr>reach = 8000, engagements = 149, likes = 104, comments = 29, shares = 14, clicks = 29,
      conversions = 0\<rparr>
   \<and> (104::int) + 29 + 14 = 149 - 2"
proof -
  have "metrics (snd (post_to_platform new_simulator sample_post_env ''LinkedIn'' ''Hello''
      ''2024-01-01T09:00:00'')) = simulate_metrics 10000 (nearest 25 1000) sample_post_env"
    by (simp add: post_to_platform_def Let_def new_simulator_def initialize_platforms_def)
  then show ?thesis by (simp add: sample_linkedin)
qed

end
